theory Spec2Isabelle
  imports Main "HOL-Library.DAList"
begin

section \<open>Strings\<close>

text \<open>
  A Go string is modelled by the list of its runes, as \<^verbatim>\<open>range\<close>, package
  \<^verbatim>\<open>regexp\<close> and \<^verbatim>\<open>strings.Map\<close> see it; a rune is its code point. A byte that is
  not part of a valid UTF-8 sequence is one element of the list as well, with a value outside ASCII.
  The separators the code looks for (\<^verbatim>\<open>/\<close>, \<^verbatim>\<open>-\<close>, \<^verbatim>\<open>:\<close>) are ASCII, so
  searching for them byte by byte and rune by rune is the same.
\<close>

type_synonym rune = nat
type_synonym gostring = "rune list"

definition str :: "string \<Rightarrow> gostring" where
  "str s = map of_char s"

abbreviation slash :: rune where "slash \<equiv> 47"
abbreviation hyphen :: rune where "hyphen \<equiv> 45"
abbreviation colon :: rune where "colon \<equiv> 58"

text \<open>\<^verbatim>\<open>strings.HasSuffix\<close>, \<^verbatim>\<open>strings.TrimSuffix\<close> and \<^verbatim>\<open>strings.TrimPrefix\<close>.\<close>

definition HasSuffix :: "gostring \<Rightarrow> gostring \<Rightarrow> bool" where
  "HasSuffix s suf \<longleftrightarrow>
     length suf \<le> length s \<and> drop (length s - length suf) s = suf"

definition TrimSuffix :: "gostring \<Rightarrow> gostring \<Rightarrow> gostring" where
  "TrimSuffix s suf = (if HasSuffix s suf then take (length s - length suf) s else s)"

definition HasPrefix :: "gostring \<Rightarrow> gostring \<Rightarrow> bool" where
  "HasPrefix s pre \<longleftrightarrow> take (length pre) s = pre"

definition TrimPrefix :: "gostring \<Rightarrow> gostring \<Rightarrow> gostring" where
  "TrimPrefix s pre = (if HasPrefix s pre then drop (length pre) s else s)"

text \<open>
  \<^verbatim>\<open>fmt.Sprintf("%d", n)\<close>: the decimal digits, after a minus sign for a negative number.
  Go's \<^verbatim>\<open>int\<close> is modelled by the unbounded integers: the code compares and prints ports and
  does no arithmetic on them.
\<close>

fun decimalDigits :: "nat \<Rightarrow> gostring" where
  "decimalDigits n =
     (if n < 10 then [48 + n] else decimalDigits (n div 10) @ [48 + n mod 10])"

declare decimalDigits.simps [simp del]

definition formatInt :: "int \<Rightarrow> gostring" where
  "formatInt i = (if i < 0 then hyphen # decimalDigits (nat (- i)) else decimalDigits (nat i))"

section \<open>Slug derivation (registry.go, Slugify)\<close>

text \<open>
  \<^verbatim>\<open>filepath.Base\<close> with the separator \<^verbatim>\<open>/\<close>: the empty path gives \<^verbatim>\<open>.\<close>, trailing
  separators are dropped, the last element is what follows the last separator, and a path of
  separators only gives \<^verbatim>\<open>/\<close>.
\<close>

definition trimRightSlashes :: "gostring \<Rightarrow> gostring" where
  "trimRightSlashes p = rev (dropWhile (\<lambda>c. c = slash) (rev p))"

definition lastElement :: "gostring \<Rightarrow> gostring" where
  "lastElement p = rev (takeWhile (\<lambda>c. c \<noteq> slash) (rev p))"

definition Base :: "gostring \<Rightarrow> gostring" where
  "Base path =
     (if path = [] then str ''.''
      else let p = lastElement (trimRightSlashes path)
           in if p = [] then [slash] else p)"

text \<open>
  \<^verbatim>\<open>strings.ToLower\<close> maps \<^verbatim>\<open>unicode.ToLower\<close> over the runes. On ASCII that function
  is the arithmetic below; beyond ASCII it reads the Unicode case tables, which are no part of
  this repository: the parameter \<open>lo\<close> stands for them, and every result below holds for
  every \<open>lo\<close>.
\<close>

definition toLowerRune :: "(rune \<Rightarrow> rune) \<Rightarrow> rune \<Rightarrow> rune" where
  "toLowerRune lo r =
     (if r \<le> 127 then (if 65 \<le> r \<and> r \<le> 90 then r + 32 else r) else lo r)"

definition ToLower :: "(rune \<Rightarrow> rune) \<Rightarrow> gostring \<Rightarrow> gostring" where
  "ToLower lo s = map (toLowerRune lo) s"

text \<open>The character class \<^verbatim>\<open>[a-z0-9-]\<close>, whose complement \<^verbatim>\<open>nonAlphaNum\<close> matches.\<close>

definition slugRune :: "rune \<Rightarrow> bool" where
  "slugRune c \<longleftrightarrow> (97 \<le> c \<and> c \<le> 122) \<or> (48 \<le> c \<and> c \<le> 57) \<or> c = hyphen"

text \<open>\<^verbatim>\<open>nonAlphaNum.ReplaceAllString(slug, "-")\<close>: every rune outside the class becomes a hyphen.\<close>

definition nonAlphaNum_ReplaceAll :: "gostring \<Rightarrow> gostring" where
  "nonAlphaNum_ReplaceAll s = map (\<lambda>c. if slugRune c then c else hyphen) s"

text \<open>\<^verbatim>\<open>multiHyphen.ReplaceAllString(slug, "-")\<close>: every maximal run of hyphens becomes one hyphen.\<close>

fun multiHyphen_ReplaceAll :: "gostring \<Rightarrow> gostring" where
  "multiHyphen_ReplaceAll [] = []"
| "multiHyphen_ReplaceAll [c] = [c]"
| "multiHyphen_ReplaceAll (c # d # cs) =
     (if c = hyphen \<and> d = hyphen then multiHyphen_ReplaceAll (d # cs)
      else c # multiHyphen_ReplaceAll (d # cs))"

text \<open>\<^verbatim>\<open>strings.Trim(slug, "-")\<close>.\<close>

definition TrimHyphens :: "gostring \<Rightarrow> gostring" where
  "TrimHyphens s = rev (dropWhile (\<lambda>c. c = hyphen) (rev (dropWhile (\<lambda>c. c = hyphen) s)))"

definition Slugify :: "(rune \<Rightarrow> rune) \<Rightarrow> gostring \<Rightarrow> gostring" where
  "Slugify lo projectPath =
     (let base = Base projectPath;
          slug = ToLower lo base;
          slug = nonAlphaNum_ReplaceAll slug;
          slug = multiHyphen_ReplaceAll slug;
          slug = TrimHyphens slug
      in if slug = [] then str ''default'' else slug)"

text \<open>The shape of a slug, as the specification words it, for the statements below.\<close>

fun noDoubleHyphen :: "gostring \<Rightarrow> bool" where
  "noDoubleHyphen (c # d # cs) \<longleftrightarrow> \<not> (c = hyphen \<and> d = hyphen) \<and> noDoubleHyphen (d # cs)"
| "noDoubleHyphen _ \<longleftrightarrow> True"

definition slugShaped :: "gostring \<Rightarrow> bool" where
  "slugShaped s \<longleftrightarrow>
     s \<noteq> [] \<and> list_all slugRune s \<and> hd s \<noteq> hyphen \<and> last s \<noteq> hyphen \<and> noDoubleHyphen s"

section \<open>The registry (registry.go)\<close>

text \<open>
  A \<^verbatim>\<open>time.Time\<close> is an instant in nanoseconds and a \<^verbatim>\<open>time.Duration\<close> a number of
  nanoseconds. The clock is an argument: \<open>now\<close> is what \<^verbatim>\<open>time.Now()\<close> returns during the
  call (one reading for the whole call, which runs under the write lock).
\<close>

type_synonym time = int

record Backend =
  Port :: int
  ProjectName :: gostring
  ProjectPath :: gostring
  Slug :: gostring
  Version :: gostring
  LastSeen :: time

text \<open>
  The two Go maps are finite maps with distinct keys (\<^typ>\<open>('k, 'v) alist\<close>). The entries of such
  a map come in some order, which stands for the unspecified order in which \<^verbatim>\<open>range\<close> visits
  a Go map. The map \<^verbatim>\<open>backends\<close> holds pointers, but no pointer leaves the registry (every
  lookup returns a copy), so the map of the records themselves is the same thing.
\<close>

record Registry =
  backends :: "(gostring, Backend) alist"
  byPort :: "(int, gostring) alist"
  staleAfter :: int

definition New :: "int \<Rightarrow> Registry" where
  "New sa = \<lparr>backends = DAList.empty, byPort = DAList.empty, staleAfter = sa\<rparr>"

text \<open>Lines 81 to 91 of registry.go: a fresh record under \<open>slug\<close>, and its port entry.\<close>

definition insertBackend ::
  "gostring \<Rightarrow> int \<Rightarrow> gostring \<Rightarrow> gostring \<Rightarrow> gostring \<Rightarrow> time
     \<Rightarrow> (gostring, Backend) alist \<Rightarrow> Registry \<Rightarrow> bool \<times> Registry" where
  "insertBackend slug port projectName projectPath version now bs r =
     (True,
      r\<lparr>backends :=
          DAList.update slug
            \<lparr>Port = port, ProjectName = projectName, ProjectPath = projectPath,
             Slug = slug, Version = version, LastSeen = now\<rparr> bs,
        byPort := DAList.update port slug (byPort r)\<rparr>)"

text \<open>
  \<^verbatim>\<open>Upsert\<close> returns whether the entry is new, and the registry after the call. \<open>bs\<close> is the
  map \<^verbatim>\<open>backends\<close> after the first \<^verbatim>\<open>if\<close> (lines 55 to 58).
\<close>

definition Upsert ::
  "(rune \<Rightarrow> rune) \<Rightarrow> int \<Rightarrow> gostring \<Rightarrow> gostring \<Rightarrow> gostring \<Rightarrow> time
     \<Rightarrow> Registry \<Rightarrow> bool \<times> Registry" where
  "Upsert lo port projectName projectPath version now r =
     (let slug = Slugify lo projectPath;
          bs = (case DAList.lookup (byPort r) port of
                  Some oldSlug \<Rightarrow>
                    if oldSlug \<noteq> slug then DAList.delete oldSlug (backends r) else backends r
                | None \<Rightarrow> backends r)
      in case DAList.lookup bs slug of
           Some existing \<Rightarrow>
             if ProjectPath existing = projectPath \<or> Port existing = port then
               (let bp = (if Port existing \<noteq> port
                          then DAList.delete (Port existing) (byPort r) else byPort r)
                in (False,
                    r\<lparr>backends :=
                        DAList.update slug
                          (existing\<lparr>Port := port, ProjectName := projectName,
                             ProjectPath := projectPath, Version := version,
                             LastSeen := now\<rparr>) bs,
                      byPort := DAList.update port slug bp\<rparr>))
             else
               insertBackend (slug @ [hyphen] @ formatInt port)
                 port projectName projectPath version now bs r
         | None \<Rightarrow> insertBackend slug port projectName projectPath version now bs r)"

text \<open>
  \<^verbatim>\<open>Prune\<close>: the loop visits the entries the map had when the loop began (deleting the entry
  being visited is all the loop does to the map) and carries both maps and the slice
  \<^verbatim>\<open>removed\<close>.
\<close>

definition pruneStep ::
  "time \<Rightarrow> int \<Rightarrow> gostring \<times> Backend
     \<Rightarrow> (gostring, Backend) alist \<times> (int, gostring) alist \<times> gostring list
     \<Rightarrow> (gostring, Backend) alist \<times> (int, gostring) alist \<times> gostring list" where
  "pruneStep now sa e st =
     (case e of (slug, b) \<Rightarrow>
        (case st of (bs, bp, removed) \<Rightarrow>
           if now - LastSeen b > sa
           then (DAList.delete slug bs, DAList.delete (Port b) bp, removed @ [slug])
           else (bs, bp, removed)))"

definition Prune :: "time \<Rightarrow> Registry \<Rightarrow> gostring list \<times> Registry" where
  "Prune now r =
     (case fold (pruneStep now (staleAfter r)) (DAList.impl_of (backends r))
             (backends r, byPort r, []) of
        (bs, bp, removed) \<Rightarrow> (removed, r\<lparr>backends := bs, byPort := bp\<rparr>))"

definition Lookup :: "Registry \<Rightarrow> gostring \<Rightarrow> Backend option" where
  "Lookup r slug = DAList.lookup (backends r) slug"

text \<open>
  \<^verbatim>\<open>LookupByPort\<close> reads \<^verbatim>\<open>r.backends[slug]\<close> with no presence check and copies
  \<^verbatim>\<open>*b\<close>: on a missing entry \<^verbatim>\<open>b\<close> is nil and the copy panics.
\<close>

datatype panic = NilPointerDereference

definition LookupByPort :: "Registry \<Rightarrow> int \<Rightarrow> panic + Backend option" where
  "LookupByPort r port =
     (case DAList.lookup (byPort r) port of
        None \<Rightarrow> Inr None
      | Some slug \<Rightarrow>
          (case DAList.lookup (backends r) slug of
             None \<Rightarrow> Inl NilPointerDereference
           | Some b \<Rightarrow> Inr (Some b)))"

definition LookupByPath :: "(rune \<Rightarrow> rune) \<Rightarrow> Registry \<Rightarrow> gostring \<Rightarrow> Backend option" where
  "LookupByPath lo r projectPath =
     (case find (\<lambda>e. ProjectPath (snd e) = projectPath) (DAList.impl_of (backends r)) of
        Some e \<Rightarrow> Some (snd e)
      | None \<Rightarrow> DAList.lookup (backends r) (Slugify lo projectPath))"

definition All_backends :: "Registry \<Rightarrow> Backend list" where
  "All_backends r = map snd (DAList.impl_of (backends r))"

definition Slugs :: "Registry \<Rightarrow> gostring list" where
  "Slugs r = map fst (DAList.impl_of (backends r))"

definition Len :: "Registry \<Rightarrow> nat" where
  "Len r = length (DAList.impl_of (backends r))"

text \<open>A sequence of calls of the two writers, each with the clock reading of its call.\<close>

datatype call =
  CallUpsert int gostring gostring gostring time
| CallPrune time

fun exec :: "(rune \<Rightarrow> rune) \<Rightarrow> call \<Rightarrow> Registry \<Rightarrow> Registry" where
  "exec lo (CallUpsert port projectName projectPath version now) r =
     snd (Upsert lo port projectName projectPath version now r)"
| "exec lo (CallPrune now) r = snd (Prune now r)"

definition run :: "(rune \<Rightarrow> rune) \<Rightarrow> call list \<Rightarrow> Registry \<Rightarrow> Registry" where
  "run lo calls r = fold (exec lo) calls r"

text \<open>The invariants I1 to I4 of the specification, on the two maps.\<close>

definition I1 :: "Registry \<Rightarrow> bool" where
  "I1 r \<longleftrightarrow>
     (\<forall>s b. DAList.lookup (backends r) s = Some b
        \<longrightarrow> DAList.lookup (byPort r) (Port b) = Some s)"

definition I2 :: "Registry \<Rightarrow> bool" where
  "I2 r \<longleftrightarrow>
     (\<forall>p s. DAList.lookup (byPort r) p = Some s \<longrightarrow> DAList.lookup (backends r) s \<noteq> None)
     \<and> (\<forall>p q s. DAList.lookup (byPort r) p = Some s \<and> DAList.lookup (byPort r) q = Some s
          \<longrightarrow> p = q)"

definition I3 :: "Registry \<Rightarrow> bool" where
  "I3 r \<longleftrightarrow>
     (\<forall>s b. DAList.lookup (backends r) s = Some b
        \<longrightarrow> (\<exists>!p. DAList.lookup (byPort r) p = Some s))
     \<and> (\<forall>p s. DAList.lookup (byPort r) p = Some s
        \<longrightarrow> (\<exists>!s'. \<exists>b. DAList.lookup (backends r) s' = Some b \<and> Port b = p))"

definition I4 :: "Registry \<Rightarrow> bool" where
  "I4 r \<longleftrightarrow> (\<forall>s b. DAList.lookup (backends r) s = Some b \<longrightarrow> Slug b = s)"

text \<open>What \<^verbatim>\<open>LookupByPort\<close> relies on: every slug stored in \<^verbatim>\<open>byPort\<close> is a key of \<^verbatim>\<open>backends\<close>.\<close>

definition byPortLive :: "Registry \<Rightarrow> bool" where
  "byPortLive r \<longleftrightarrow>
     (\<forall>p s. DAList.lookup (byPort r) p = Some s \<longrightarrow> DAList.lookup (backends r) s \<noteq> None)"

text \<open>A backend is stale at \<open>now\<close> when \<^verbatim>\<open>time.Since(b.LastSeen) > r.staleAfter\<close>.\<close>

definition stale :: "time \<Rightarrow> int \<Rightarrow> Backend \<Rightarrow> bool" where
  "stale now sa b \<longleftrightarrow> now - LastSeen b > sa"

text \<open>
  The property that every key of \<^verbatim>\<open>backends\<close> is a non-empty string without a slash, that
  is, one path segment.
\<close>

definition slugKeys :: "Registry \<Rightarrow> bool" where
  "slugKeys r \<longleftrightarrow>
     (\<forall>s b. DAList.lookup (backends r) s = Some b \<longrightarrow> s \<noteq> [] \<and> slash \<notin> set s)"

section \<open>The router (proxy.go)\<close>

text \<open>
  Of \<^verbatim>\<open>config.Config\<close> the router and the advertiser read the user name and the listen port.
  Of a request the router reads the method, the \<^verbatim>\<open>Host\<close> header, \<^verbatim>\<open>URL.Path\<close> and the
  parsed query \<^verbatim>\<open>URL.Query()\<close>, a map from a key to the list of its values;
  \<^verbatim>\<open>Values.Get\<close> returns the first value of a key and the empty string when there is none.
\<close>

record Config =
  Username :: gostring
  ListenPort :: int

definition DomainFor :: "Config \<Rightarrow> gostring \<Rightarrow> gostring" where
  "DomainFor c slug = slug @ str ''-'' @ Username c @ str ''.local''"

record Request =
  Method :: gostring
  Host :: gostring
  URLPath :: gostring
  Query :: "gostring \<rightharpoonup> gostring list"

definition queryGet :: "Request \<Rightarrow> gostring \<Rightarrow> gostring" where
  "queryGet req key = (case Query req key of Some (v # vs) \<Rightarrow> v | _ \<Rightarrow> [])"

text \<open>
  A response is its status code, its content type and its body. A JSON body is kept as the value
  that \<^verbatim>\<open>json.Encoder\<close> is given, an object being the list of its fields;
  \<^verbatim>\<open>http.Error\<close> writes a plain-text body, the message and a newline.
\<close>

datatype json =
  JString gostring
| JNumber int
| JBool bool
| JTime time
| JObject "(gostring \<times> json) list"
| JArray "json list"

datatype body = PlainText gostring | JsonBody json

record Response =
  StatusCode :: nat
  ContentType :: gostring
  Body :: body

definition httpError :: "gostring \<Rightarrow> nat \<Rightarrow> Response" where
  "httpError msg code =
     \<lparr>StatusCode = code, ContentType = str ''text/plain; charset=utf-8'',
      Body = PlainText (msg @ [10])\<rparr>"

definition jsonResponse :: "nat \<Rightarrow> json \<Rightarrow> Response" where
  "jsonResponse code v =
     \<lparr>StatusCode = code, ContentType = str ''application/json'', Body = JsonBody v\<rparr>"

text \<open>
  \<^verbatim>\<open>slugFromHost\<close>: \<^verbatim>\<open>host[:idx]\<close> for the last colon, then the two suffix checks.
\<close>

definition slugFromHost :: "Config \<Rightarrow> gostring \<Rightarrow> gostring" where
  "slugFromHost cfg host =
     (let hostname = (if colon \<in> set host
                      then rev (tl (dropWhile (\<lambda>c. c \<noteq> colon) (rev host))) else host)
      in if \<not> HasSuffix hostname (str ''.local'') then []
         else let hostname = TrimSuffix hostname (str ''.local'');
                  suffix = str ''-'' @ Username cfg
              in if \<not> HasSuffix hostname suffix then []
                 else let slug = TrimSuffix hostname suffix
                      in if slug = [] then [] else slug)"

text \<open>\<^verbatim>\<open>strings.SplitN(trimmed, "/", 2)\<close>: one part, or the parts before and after the first slash.\<close>

definition SplitN2 :: "gostring \<Rightarrow> gostring list" where
  "SplitN2 s =
     (if slash \<in> set s
      then [takeWhile (\<lambda>c. c \<noteq> slash) s, tl (dropWhile (\<lambda>c. c \<noteq> slash) s)]
      else [s])"

definition slugFromPath :: "gostring \<Rightarrow> gostring \<times> gostring" where
  "slugFromPath path =
     (let trimmed = TrimPrefix path (str ''/'')
      in if trimmed = [] then ([], [])
         else let parts = SplitN2 trimmed
              in (parts ! 0,
                  if length parts > 1 then str ''/'' @ parts ! 1 else str ''/''))"

text \<open>
  \<^verbatim>\<open>proxyTo\<close> hands the request to a \<^verbatim>\<open>httputil.ReverseProxy\<close>. The outcome
  \<open>Forward port path\<close> is the outbound request to \<^verbatim>\<open>http://127.0.0.1:port\<close> with
  URL path \<open>path\<close>: \<^verbatim>\<open>SetURL\<close> joins the target's empty path and the inbound path
  (\<^verbatim>\<open>singleJoiningSlash\<close> of the standard library), and a non-empty
  \<^verbatim>\<open>pathOverride\<close> replaces the result. \<^verbatim>\<open>url.Parse\<close> rejects a port that is not a
  run of digits, which for a printed \<^verbatim>\<open>int\<close> is a negative one: the branch that answers 500.
  The dashboard is an HTML template outside this model; its outcome carries the snapshot it is
  rendered from.
\<close>

definition singleJoiningSlash :: "gostring \<Rightarrow> gostring \<Rightarrow> gostring" where
  "singleJoiningSlash a b =
     (let aslash = HasSuffix a (str ''/''); bslash = HasPrefix b (str ''/'')
      in if aslash \<and> bslash then a @ drop 1 b
         else if \<not> aslash \<and> \<not> bslash then a @ str ''/'' @ b
         else a @ b)"

datatype outcome =
  Forward int gostring
| Respond Response
| Dashboard "Backend list"

definition proxyTo :: "Backend \<Rightarrow> Request \<Rightarrow> gostring \<Rightarrow> outcome" where
  "proxyTo backend req pathOverride =
     (if Port backend < 0 then Respond (httpError (str ''internal error'') 500)
      else Forward (Port backend)
             (if pathOverride \<noteq> [] then pathOverride
              else singleJoiningSlash [] (URLPath req)))"

text \<open>
  The object that \<^verbatim>\<open>/api/backends\<close> lists and \<^verbatim>\<open>/api/resolve\<close> returns: the two
  handlers build the same fields.
\<close>

definition backendInfo :: "Config \<Rightarrow> Backend \<Rightarrow> json" where
  "backendInfo cfg b =
     JObject
       [(str ''slug'', JString (Slug b)),
        (str ''project_name'', JString (ProjectName b)),
        (str ''project_path'', JString (ProjectPath b)),
        (str ''port'', JNumber (Port b)),
        (str ''version'', JString (Version b)),
        (str ''domain'', JString (DomainFor cfg (Slug b))),
        (str ''path_prefix'', JString (str ''/'' @ Slug b @ str ''/'')),
        (str ''url'',
           JString (str ''http://localhost:'' @ formatInt (ListenPort cfg) @ str ''/''
                      @ Slug b @ str ''/'')),
        (str ''last_seen'', JTime (LastSeen b))]"

definition handleAPIBackends :: "Config \<Rightarrow> Registry \<Rightarrow> Request \<Rightarrow> Response" where
  "handleAPIBackends cfg r req =
     (if Method req \<noteq> str ''GET'' then httpError (str ''method not allowed'') 405
      else jsonResponse 200 (JArray (map (backendInfo cfg) (All_backends r))))"

definition handleAPIHealth :: "Config \<Rightarrow> Registry \<Rightarrow> Request \<Rightarrow> Response" where
  "handleAPIHealth cfg r req =
     jsonResponse 200
       (JObject
          [(str ''healthy'', JBool True),
           (str ''username'', JString (Username cfg)),
           (str ''backends'', JNumber (int (Len r)))])"

definition handleAPIResolve ::
  "(rune \<Rightarrow> rune) \<Rightarrow> Config \<Rightarrow> Registry \<Rightarrow> Request \<Rightarrow> Response" where
  \<open>handleAPIResolve lo cfg r req =
     (if Method req \<noteq> str ''GET'' then httpError (str ''method not allowed'') 405
      else let projectPath = queryGet req (str ''path'');
               projectName = queryGet req (str ''name'')
           in if projectPath = [] \<and> projectName = []
              then httpError (str ''missing "path" or "name" query parameter'') 400
              else case (if projectPath \<noteq> [] then LookupByPath lo r projectPath
                         else Lookup r (Slugify lo projectName)) of
                     None \<Rightarrow>
                       (let query = (if projectPath = [] then projectName else projectPath)
                        in jsonResponse 404
                             (JObject
                                [(str ''error'', JString (str ''not_found'')),
                                 (str ''query'', JString query),
                                 (str ''detail'',
                                    JString (str ''no backend found for this project''))]))
                   | Some backend \<Rightarrow> jsonResponse 200 (backendInfo cfg backend))\<close>

definition ServeHTTP ::
  "(rune \<Rightarrow> rune) \<Rightarrow> Config \<Rightarrow> Registry \<Rightarrow> Request \<Rightarrow> outcome" where
  "ServeHTTP lo cfg r req =
     (let slug = slugFromHost cfg (Host req)
      in case (if slug \<noteq> [] then Lookup r slug else None) of
           Some backend \<Rightarrow> proxyTo backend req []
         | None \<Rightarrow>
             (case slugFromPath (URLPath req) of
                (slug, remainder) \<Rightarrow>
                  (case (if slug \<noteq> [] then Lookup r slug else None) of
                     Some backend \<Rightarrow> proxyTo backend req remainder
                   | None \<Rightarrow>
                       if URLPath req = str ''/api/backends''
                       then Respond (handleAPIBackends cfg r req)
                       else if URLPath req = str ''/api/health''
                       then Respond (handleAPIHealth cfg r req)
                       else if URLPath req = str ''/api/resolve''
                       then Respond (handleAPIResolve lo cfg r req)
                       else Dashboard (All_backends r))))"

text \<open>
  The two proxy stages of \<^verbatim>\<open>ServeHTTP\<close> pass a request on when they extract no slug or the
  slug is not registered. \<open>statusOf\<close> reads the status code of an outcome that is a response
  of the router itself.
\<close>

definition hostMiss :: "Config \<Rightarrow> Registry \<Rightarrow> Request \<Rightarrow> bool" where
  "hostMiss cfg r req \<longleftrightarrow>
     slugFromHost cfg (Host req) = [] \<or> Lookup r (slugFromHost cfg (Host req)) = None"

definition pathMiss :: "Registry \<Rightarrow> Request \<Rightarrow> bool" where
  "pathMiss r req \<longleftrightarrow>
     fst (slugFromPath (URLPath req)) = []
     \<or> Lookup r (fst (slugFromPath (URLPath req))) = None"

fun statusOf :: "outcome \<Rightarrow> nat option" where
  "statusOf (Respond resp) = Some (StatusCode resp)"
| "statusOf (Forward port path) = None"
| "statusOf (Dashboard bs) = None"

section \<open>The mDNS advertiser (discovery.go)\<close>

text \<open>
  A \<^verbatim>\<open>*zeroconf.Server\<close> is a handle, told apart by its identity. The zeroconf library is no
  part of this repository: \<open>RegisterProxy\<close> and \<open>Shutdown\<close> are parameters, acting on a
  state \<open>network\<close> of the library and the network, of any type. \<open>RegisterProxy\<close> gets
  the instance name, the host name and the TXT records (the other arguments are constants of the
  configuration) and returns a handle, or none for an error. The field \<open>trace\<close> records the
  calls made to the library, in order.
\<close>

type_synonym handle = nat

datatype event =
  EvShutdown gostring handle
| EvRegister gostring "handle option"

record 'w Advertiser =
  servers :: "(gostring, handle) alist"
  network :: 'w
  trace :: "event list"

definition register ::
  "('w \<Rightarrow> gostring \<Rightarrow> gostring \<Rightarrow> gostring list \<Rightarrow> handle option \<times> 'w)
     \<Rightarrow> Config \<Rightarrow> Backend \<Rightarrow> 'w Advertiser \<Rightarrow> bool \<times> 'w Advertiser" where
  "register RegisterProxy cfg b a =
     (let host = DomainFor cfg (Slug b);
          txt = [str ''project='' @ ProjectName b,
                 str ''path='' @ ProjectPath b,
                 str ''backend=127.0.0.1:'' @ formatInt (Port b),
                 str ''owner='' @ Username cfg];
          txt = (if Version b \<noteq> [] then txt @ [str ''version='' @ Version b] else txt)
      in case RegisterProxy (network a) (Slug b) host txt of
           (None, w) \<Rightarrow>
             (False, a\<lparr>network := w, trace := trace a @ [EvRegister (Slug b) None]\<rparr>)
         | (Some srv, w) \<Rightarrow>
             (True,
              a\<lparr>servers := DAList.update (Slug b) srv (servers a), network := w,
                trace := trace a @ [EvRegister (Slug b) (Some srv)]\<rparr>))"

definition syncRemove ::
  "('w \<Rightarrow> handle \<Rightarrow> 'w) \<Rightarrow> gostring list \<Rightarrow> gostring \<times> handle
     \<Rightarrow> 'w Advertiser \<Rightarrow> 'w Advertiser" where
  "syncRemove Shutdown currentSlugs e a =
     (case e of (slug, srv) \<Rightarrow>
        if slug \<notin> set currentSlugs
        then a\<lparr>servers := DAList.delete slug (servers a),
               network := Shutdown (network a) srv,
               trace := trace a @ [EvShutdown slug srv]\<rparr>
        else a)"

definition syncAdd ::
  "('w \<Rightarrow> gostring \<Rightarrow> gostring \<Rightarrow> gostring list \<Rightarrow> handle option \<times> 'w)
     \<Rightarrow> Config \<Rightarrow> Backend \<Rightarrow> 'w Advertiser \<Rightarrow> 'w Advertiser" where
  "syncAdd RegisterProxy cfg b a =
     (if DAList.lookup (servers a) (Slug b) \<noteq> None then a
      else snd (register RegisterProxy cfg b a))"

definition Sync ::
  "('w \<Rightarrow> gostring \<Rightarrow> gostring \<Rightarrow> gostring list \<Rightarrow> handle option \<times> 'w)
     \<Rightarrow> ('w \<Rightarrow> handle \<Rightarrow> 'w) \<Rightarrow> Config \<Rightarrow> Backend list
     \<Rightarrow> 'w Advertiser \<Rightarrow> 'w Advertiser" where
  "Sync RegisterProxy Shutdown cfg bs a =
     (let currentSlugs = map Slug bs;
          a = fold (syncRemove Shutdown currentSlugs) (DAList.impl_of (servers a)) a
      in fold (syncAdd RegisterProxy cfg) bs a)"

section \<open>Example states\<close>

text \<open>
  A registry holding the project \<^verbatim>\<open>/a/proj\<close> on port 4096, last seen at instant 0, with a
  staleness threshold of 50.
\<close>

definition projBackend :: Backend where
  "projBackend =
     \<lparr>Port = 4096, ProjectName = str ''proj'', ProjectPath = str ''/a/proj'',
      Slug = str ''proj'', Version = str ''1'', LastSeen = 0\<rparr>"

definition projRegistry :: Registry where
  "projRegistry =
     \<lparr>backends = DAList.update (str ''proj'') projBackend DAList.empty,
      byPort = DAList.update 4096 (str ''proj'') DAList.empty,
      staleAfter = 50\<rparr>"

text \<open>Scenario 3 of the specification: the same project seen on port 4096, then on port 4097.\<close>

definition reassign :: "time \<Rightarrow> time \<Rightarrow> call list" where
  "reassign t1 t2 =
     [CallUpsert 4096 (str ''proj'') (str ''/h/a/proj'') (str ''1'') t1,
      CallUpsert 4097 (str ''proj'') (str ''/h/a/proj'') (str ''1'') t2]"

text \<open>
  Three discoveries: a project directory \<^verbatim>\<open>proj-4097\<close> served on port 5000, then two
  different directories both named \<^verbatim>\<open>proj\<close>, on ports 4096 and 4097. The third call takes
  the collision branch and stores its record under \<^verbatim>\<open>proj-4097\<close>. \<open>collisionState\<close> is
  the registry after the three calls.
\<close>

definition collisionCalls :: "call list" where
  "collisionCalls =
     [CallUpsert 5000 (str ''proj-4097'') (str ''/x/proj-4097'') (str ''1'') 0,
      CallUpsert 4096 (str ''proj'') (str ''/a/proj'') (str ''1'') 0,
      CallUpsert 4097 (str ''proj'') (str ''/b/proj'') (str ''1'') 0]"

definition collisionState :: "int \<Rightarrow> Registry" where
  "collisionState sa =
     \<lparr>backends =
        DAList.update (str ''proj-4097'')
          \<lparr>Port = 4097, ProjectName = str ''proj'', ProjectPath = str ''/b/proj'',
           Slug = str ''proj-4097'', Version = str ''1'', LastSeen = 0\<rparr>
          (DAList.update (str ''proj'')
             \<lparr>Port = 4096, ProjectName = str ''proj'', ProjectPath = str ''/a/proj'',
              Slug = str ''proj'', Version = str ''1'', LastSeen = 0\<rparr>
             (DAList.update (str ''proj-4097'')
                \<lparr>Port = 5000, ProjectName = str ''proj-4097'',
                 ProjectPath = str ''/x/proj-4097'', Slug = str ''proj-4097'',
                 Version = str ''1'', LastSeen = 0\<rparr>
                DAList.empty)),
      byPort =
        DAList.update 4097 (str ''proj-4097'')
          (DAList.update 4096 (str ''proj'')
             (DAList.update 5000 (str ''proj-4097'') DAList.empty)),
      staleAfter = sa\<rparr>"

text \<open>
  A configuration, a \<^verbatim>\<open>GET\<close> request whose \<^verbatim>\<open>Host\<close> header names no project, the call
  that discovers \<^verbatim>\<open>/a/proj\<close> on port 4096 (it yields \<open>projRegistry\<close>), and a registry whose
  only project directory is named \<^verbatim>\<open>api\<close>.
\<close>

definition exampleConfig :: Config where
  "exampleConfig = \<lparr>Username = str ''alice'', ListenPort = 8080\<rparr>"

definition getRequest :: "gostring \<Rightarrow> (gostring \<rightharpoonup> gostring list) \<Rightarrow> Request" where
  "getRequest path q =
     \<lparr>Method = str ''GET'', Host = str ''localhost:8080'', URLPath = path, Query = q\<rparr>"

definition projCalls :: "call list" where
  "projCalls = [CallUpsert 4096 (str ''proj'') (str ''/a/proj'') (str ''1'') 0]"

definition apiBackend :: Backend where
  "apiBackend =
     \<lparr>Port = 4096, ProjectName = str ''api'', ProjectPath = str ''/home/alice/api'',
      Slug = str ''api'', Version = str ''1'', LastSeen = 0\<rparr>"

definition apiRegistry :: Registry where
  "apiRegistry =
     \<lparr>backends = DAList.update (str ''api'') apiBackend DAList.empty,
      byPort = DAList.update 4096 (str ''api'') DAList.empty,
      staleAfter = 50\<rparr>"

text \<open>
  Two behaviours of the zeroconf library, with the number of calls made so far as the state of the
  network: \<open>flakyRegister\<close> fails on the first call and succeeds afterwards,
  \<open>steadyRegister\<close> always succeeds; a handle is the number of the call that made it.
\<close>

definition flakyRegister ::
  "nat \<Rightarrow> gostring \<Rightarrow> gostring \<Rightarrow> gostring list \<Rightarrow> handle option \<times> nat" where
  "flakyRegister w instance host txt = (if w = 0 then None else Some w, w + 1)"

definition steadyRegister ::
  "nat \<Rightarrow> gostring \<Rightarrow> gostring \<Rightarrow> gostring list \<Rightarrow> handle option \<times> nat" where
  "steadyRegister w instance host txt = (Some w, w + 1)"

definition keepNetwork :: "nat \<Rightarrow> handle \<Rightarrow> nat" where
  "keepNetwork w srv = w"

definition freshAdvertiser :: "nat Advertiser" where
  "freshAdvertiser = \<lparr>servers = DAList.empty, network = 0, trace = []\<rparr>"

section \<open>Evaluation rules\<close>

lemmas slug_eval = Slugify_def Base_def str_def lastElement_def trimRightSlashes_def ToLower_def
  toLowerRune_def nonAlphaNum_ReplaceAll_def slugRune_def TrimHyphens_def

lemma lookup_update_if:
  "DAList.lookup (DAList.update k v m) k' = (if k' = k then Some v else DAList.lookup m k')"
  by (simp add: DAList.lookup_update)

lemma in_impl_of_iff: "(k, v) \<in> set (DAList.impl_of m) \<longleftrightarrow> DAList.lookup m k = Some v"
  by (simp add: DAList.lookup.rep_eq)

lemma formatInt_4097: "formatInt 4097 = str ''4097''"
  by (simp add: formatInt_def decimalDigits.simps str_def)

lemma Slugify_a_proj: "Slugify lo (str ''/a/proj'') = str ''proj''"
  by (simp add: slug_eval)

lemma Slugify_b_proj: "Slugify lo (str ''/b/proj'') = str ''proj''"
  by (simp add: slug_eval)

lemma Slugify_h_a_proj: "Slugify lo (str ''/h/a/proj'') = str ''proj''"
  by (simp add: slug_eval)

lemma Slugify_x_proj_4097: "Slugify lo (str ''/x/proj-4097'') = str ''proj-4097''"
  by (simp add: slug_eval)

lemma Slugify_x_other: "Slugify lo (str ''/x/other'') = str ''other''"
  by (simp add: slug_eval)

lemma slug_keys:
  "str ''proj'' \<noteq> str ''proj-4097''" "str ''proj-4097'' \<noteq> str ''proj''"
  "str ''other'' \<noteq> str ''proj-4097''" "str ''proj-4097'' \<noteq> str ''other''"
  "str ''other'' \<noteq> str ''proj''" "str ''proj'' \<noteq> str ''other''"
  "str ''/a/proj'' \<noteq> str ''/b/proj''"
  "str ''proj'' @ hyphen # str ''4097'' = str ''proj-4097''"
  by (simp_all add: str_def)

section \<open>Slugify\<close>

lemma double_Cons_iff:
  "(\<exists>u v. c # s = u @ [hyphen, hyphen] @ v) \<longleftrightarrow>
     (\<exists>v. c # s = [hyphen, hyphen] @ v) \<or> (\<exists>u v. s = u @ [hyphen, hyphen] @ v)"
proof
  assume "\<exists>u v. c # s = u @ [hyphen, hyphen] @ v"
  then obtain u v where e: "c # s = u @ [hyphen, hyphen] @ v" by blast
  show "(\<exists>v. c # s = [hyphen, hyphen] @ v) \<or> (\<exists>u v. s = u @ [hyphen, hyphen] @ v)"
  proof (cases u)
    case Nil
    with e show ?thesis by auto
  next
    case (Cons a u')
    with e have "s = u' @ [hyphen, hyphen] @ v" by simp
    then show ?thesis by blast
  qed
next
  assume "(\<exists>v. c # s = [hyphen, hyphen] @ v) \<or> (\<exists>u v. s = u @ [hyphen, hyphen] @ v)"
  then show "\<exists>u v. c # s = u @ [hyphen, hyphen] @ v"
  proof
    assume "\<exists>v. c # s = [hyphen, hyphen] @ v"
    then obtain v where "c # s = [] @ [hyphen, hyphen] @ v" by auto
    then show ?thesis by blast
  next
    assume "\<exists>u v. s = u @ [hyphen, hyphen] @ v"
    then obtain u v where "c # s = (c # u) @ [hyphen, hyphen] @ v" by auto
    then show ?thesis by blast
  qed
qed

lemma short_no_double: "length s < 2 \<Longrightarrow> s \<noteq> u @ [hyphen, hyphen] @ v"
proof
  assume "length s < 2" and "s = u @ [hyphen, hyphen] @ v"
  then have "length (u @ [hyphen, hyphen] @ v) < 2" by simp
  then show False by simp
qed

lemma noDoubleHyphen_iff:
  "noDoubleHyphen s \<longleftrightarrow> \<not> (\<exists>u v. s = u @ [hyphen, hyphen] @ v)"
proof (induction s)
  case Nil
  show ?case using short_no_double [of "[]"] by simp
next
  case (Cons c s)
  show ?case
  proof (cases s)
    case Nil
    then show ?thesis using short_no_double [of "[c]"] by simp
  next
    case (Cons d cs)
    have "(\<exists>u v. c # d # cs = u @ [hyphen, hyphen] @ v) \<longleftrightarrow>
            (c = hyphen \<and> d = hyphen) \<or> (\<exists>u v. d # cs = u @ [hyphen, hyphen] @ v)"
      by (subst double_Cons_iff) auto
    with Cons.IH Cons show ?thesis by simp
  qed
qed

lemma multiHyphen_head: "\<exists>r. multiHyphen_ReplaceAll (d # cs) = d # r"
  by (induction cs arbitrary: d) auto

lemma multiHyphen_noDouble: "noDoubleHyphen (multiHyphen_ReplaceAll s)"
proof (induction s rule: multiHyphen_ReplaceAll.induct)
  case (3 c d cs)
  obtain r where r: "multiHyphen_ReplaceAll (d # cs) = d # r"
    using multiHyphen_head by blast
  with 3 show ?case by auto
qed simp_all

lemma multiHyphen_id: "noDoubleHyphen s \<Longrightarrow> multiHyphen_ReplaceAll s = s"
  by (induction s rule: multiHyphen_ReplaceAll.induct) auto

lemma multiHyphen_set: "set (multiHyphen_ReplaceAll s) \<subseteq> set s"
  by (induction s rule: multiHyphen_ReplaceAll.induct) auto

lemma rev_dropWhile_split:
  "rev (dropWhile P (rev xs)) @ rev (takeWhile P (rev xs)) = xs"
proof -
  have "rev (takeWhile P (rev xs) @ dropWhile P (rev xs)) = rev (rev xs)"
    by (simp only: takeWhile_dropWhile_id)
  then show ?thesis by (simp only: rev_append rev_rev_ident)
qed

lemma TrimHyphens_split:
  "dropWhile (\<lambda>c. c = hyphen) s =
     TrimHyphens s @ rev (takeWhile (\<lambda>c. c = hyphen) (rev (dropWhile (\<lambda>c. c = hyphen) s)))"
  unfolding TrimHyphens_def by (simp only: rev_dropWhile_split)

lemma TrimHyphens_decomp: "\<exists>a b. s = a @ TrimHyphens s @ b"
proof -
  let ?P = "\<lambda>c. c = hyphen"
  have "s = takeWhile ?P s @ dropWhile ?P s" by simp
  then have "s = takeWhile ?P s @ TrimHyphens s @ rev (takeWhile ?P (rev (dropWhile ?P s)))"
    using TrimHyphens_split [of s] by simp
  then show ?thesis by blast
qed

lemma TrimHyphens_set: "set (TrimHyphens s) \<subseteq> set s"
proof -
  obtain a b where "s = a @ TrimHyphens s @ b" using TrimHyphens_decomp by blast
  then have "set s = set a \<union> set (TrimHyphens s) \<union> set b"
    by (metis set_append sup_assoc)
  then show ?thesis by blast
qed

lemma TrimHyphens_noDouble:
  assumes "noDoubleHyphen s" shows "noDoubleHyphen (TrimHyphens s)"
proof -
  obtain a b where s: "s = a @ TrimHyphens s @ b" using TrimHyphens_decomp by blast
  show ?thesis
    unfolding noDoubleHyphen_iff
  proof
    assume "\<exists>u v. TrimHyphens s = u @ [hyphen, hyphen] @ v"
    then obtain u v where "TrimHyphens s = u @ [hyphen, hyphen] @ v" by blast
    with s have "s = (a @ u) @ [hyphen, hyphen] @ (v @ b)" by simp
    then have "\<exists>u v. s = u @ [hyphen, hyphen] @ v" by blast
    with assms show False by (simp add: noDoubleHyphen_iff)
  qed
qed

lemma TrimHyphens_last:
  assumes "TrimHyphens s \<noteq> []" shows "last (TrimHyphens s) \<noteq> hyphen"
proof -
  define e where "e = dropWhile (\<lambda>c. c = hyphen) (rev (dropWhile (\<lambda>c. c = hyphen) s))"
  have t: "TrimHyphens s = rev e" by (simp add: TrimHyphens_def e_def)
  with assms have ne: "e \<noteq> []" by simp
  then have "\<not> (hd e = hyphen)" unfolding e_def by (rule hd_dropWhile)
  moreover have "last (rev e) = hd e" by (simp add: last_rev)
  ultimately show ?thesis by (simp add: t)
qed

lemma TrimHyphens_hd:
  assumes "TrimHyphens s \<noteq> []" shows "hd (TrimHyphens s) \<noteq> hyphen"
proof -
  define d where "d = dropWhile (\<lambda>c. c = hyphen) s"
  obtain b where d: "d = TrimHyphens s @ b"
    using TrimHyphens_split [of s] by (simp add: d_def)
  with assms have "d \<noteq> []" by simp
  then have "\<not> (hd d = hyphen)" unfolding d_def by (rule hd_dropWhile)
  moreover from d assms have "hd d = hd (TrimHyphens s)" by simp
  ultimately show ?thesis by simp
qed

lemma TrimHyphens_id:
  assumes "s \<noteq> []" "hd s \<noteq> hyphen" "last s \<noteq> hyphen"
  shows "TrimHyphens s = s"
proof -
  from assms obtain c cs where s: "s = c # cs" and c: "c \<noteq> hyphen" by (cases s) auto
  then have d: "dropWhile (\<lambda>c. c = hyphen) s = s" by simp
  from assms have "rev s \<noteq> []" "hd (rev s) \<noteq> hyphen" by (simp_all add: hd_rev)
  then have "dropWhile (\<lambda>c. c = hyphen) (rev s) = rev s" by (cases "rev s") auto
  with d show ?thesis by (simp add: TrimHyphens_def)
qed

lemma slugRune_facts: "slugRune c \<Longrightarrow> c \<noteq> slash \<and> toLowerRune lo c = c"
  by (auto simp: slugRune_def toLowerRune_def)

lemma default_slugShaped: "slugShaped (str ''default'')"
  by (simp add: slugShaped_def str_def slugRune_def)

lemma Slugify_slugShaped: "slugShaped (Slugify lo x)"
proof -
  let ?m = "multiHyphen_ReplaceAll (nonAlphaNum_ReplaceAll (ToLower lo (Base x)))"
  let ?t = "TrimHyphens ?m"
  show ?thesis
  proof (cases "?t = []")
    case True
    then have "Slugify lo x = str ''default''" by (simp add: Slugify_def Let_def)
    then show ?thesis by (simp add: default_slugShaped)
  next
    case False
    then have e: "Slugify lo x = ?t" by (simp add: Slugify_def Let_def)
    have "set (nonAlphaNum_ReplaceAll (ToLower lo (Base x))) \<subseteq> Collect slugRune"
      by (auto simp: nonAlphaNum_ReplaceAll_def slugRune_def)
    then have "set ?t \<subseteq> Collect slugRune"
      using multiHyphen_set TrimHyphens_set by blast
    then have "list_all slugRune ?t" by (auto simp: list_all_iff)
    moreover have "noDoubleHyphen ?t"
      by (rule TrimHyphens_noDouble) (rule multiHyphen_noDouble)
    ultimately show ?thesis
      using False TrimHyphens_hd [of ?m] TrimHyphens_last [of ?m]
      by (simp add: slugShaped_def e)
  qed
qed

lemma Base_id:
  assumes "s \<noteq> []" "slash \<notin> set s"
  shows "Base s = s"
proof -
  from assms(1) have "last s \<in> set s" by (rule last_in_set)
  with assms(2) have "last s \<noteq> slash" by metis
  with assms(1) have "rev s \<noteq> []" "hd (rev s) \<noteq> slash"
    by (simp_all add: hd_rev)
  then have "dropWhile (\<lambda>c. c = slash) (rev s) = rev s" by (cases "rev s") auto
  then have t: "trimRightSlashes s = s" by (simp add: trimRightSlashes_def)
  from assms have "takeWhile (\<lambda>c. c \<noteq> slash) (rev s) = rev s"
    by (intro takeWhile_eq_all_conv [THEN iffD2]) auto
  then have "lastElement s = s" unfolding lastElement_def by (simp only: rev_rev_ident)
  with t assms show ?thesis by (simp add: Base_def)
qed

lemma Slugify_fixes_slugShaped:
  assumes "slugShaped s" shows "Slugify lo s = s"
proof -
  from assms have ne: "s \<noteq> []" and all: "list_all slugRune s"
    and h: "hd s \<noteq> hyphen" and l: "last s \<noteq> hyphen" and nd: "noDoubleHyphen s"
    by (simp_all add: slugShaped_def)
  from all have "slash \<notin> set s" using slugRune_facts by (auto simp: list_all_iff)
  with ne have "Base s = s" by (rule Base_id)
  moreover from all have "ToLower lo s = s"
    unfolding ToLower_def using slugRune_facts by (intro map_idI) (auto simp: list_all_iff)
  moreover from all have "nonAlphaNum_ReplaceAll s = s"
    unfolding nonAlphaNum_ReplaceAll_def by (intro map_idI) (auto simp: list_all_iff)
  moreover from nd have "multiHyphen_ReplaceAll s = s" by (rule multiHyphen_id)
  moreover from ne h l have "TrimHyphens s = s" by (rule TrimHyphens_id)
  ultimately show ?thesis using ne by (simp add: Slugify_def)
qed

text \<open>
  C5. For every input, \<^verbatim>\<open>Slugify\<close> is idempotent, its output has only runes of
  \<^verbatim>\<open>[a-z0-9-]\<close>, is not empty, neither begins nor ends with a hyphen, and contains no two
  consecutive hyphens. This holds whatever the Unicode lower-case table \<open>lo\<close> is.
\<close>

theorem Slugify_idempotent_and_shape:
  "Slugify lo (Slugify lo x) = Slugify lo x
   \<and> list_all slugRune (Slugify lo x)
   \<and> Slugify lo x \<noteq> []
   \<and> hd (Slugify lo x) \<noteq> hyphen
   \<and> last (Slugify lo x) \<noteq> hyphen
   \<and> \<not> (\<exists>u v. Slugify lo x = u @ str ''--'' @ v)"
proof -
  have s: "slugShaped (Slugify lo x)" by (rule Slugify_slugShaped)
  then have "Slugify lo (Slugify lo x) = Slugify lo x" by (rule Slugify_fixes_slugShaped)
  moreover from s have "\<not> (\<exists>u v. Slugify lo x = u @ str ''--'' @ v)"
    by (simp add: slugShaped_def noDoubleHyphen_iff str_def)
  ultimately show ?thesis using s by (simp add: slugShaped_def)
qed

theorem Slugify_idempotent_and_shape_witness:
  "Slugify id (str ''my-awesome-project'') = str ''my-awesome-project''
   \<and> list_all slugRune (str ''my-awesome-project'')"
proof -
  have e: "Slugify id (str ''/home/alice/My Awesome Project'') = str ''my-awesome-project''"
    by (simp add: slug_eval)
  from Slugify_idempotent_and_shape [of id "str ''/home/alice/My Awesome Project''"]
  show ?thesis unfolding e by simp
qed

section \<open>Prune\<close>

lemma pruneStep_stale:
  "stale now sa b \<Longrightarrow>
     pruneStep now sa (k, b) (bs, bp, rm) =
       (DAList.delete k bs, DAList.delete (Port b) bp, rm @ [k])"
  by (simp add: pruneStep_def stale_def)

lemma pruneStep_fresh:
  "\<not> stale now sa b \<Longrightarrow> pruneStep now sa (k, b) (bs, bp, rm) = (bs, bp, rm)"
  by (simp add: pruneStep_def stale_def)

lemma fold_pruneStep:
  "fold (pruneStep now sa) xs (bs, bp, rm) = (bs', bp', rm') \<Longrightarrow>
     (\<forall>k. DAList.lookup bs' k =
            (if \<exists>b. (k, b) \<in> set xs \<and> stale now sa b then None else DAList.lookup bs k))
   \<and> (\<forall>p. DAList.lookup bp' p =
            (if \<exists>k b. (k, b) \<in> set xs \<and> stale now sa b \<and> Port b = p then None
             else DAList.lookup bp p))
   \<and> rm' = rm @ map fst (filter (\<lambda>e. stale now sa (snd e)) xs)"
proof (induction xs arbitrary: bs bp rm)
  case Nil
  then show ?case by simp
next
  case (Cons e xs)
  obtain k b where e: "e = (k, b)" by (cases e)
  show ?case
  proof (cases "stale now sa b")
    case True
    with Cons.prems e have
      "fold (pruneStep now sa) xs (DAList.delete k bs, DAList.delete (Port b) bp, rm @ [k])
         = (bs', bp', rm')"
      by (simp add: pruneStep_stale)
    from Cons.IH [OF this] True e show ?thesis by auto
  next
    case False
    with Cons.prems e have "fold (pruneStep now sa) xs (bs, bp, rm) = (bs', bp', rm')"
      by (simp add: pruneStep_fresh)
    from Cons.IH [OF this] False e show ?thesis by auto
  qed
qed

text \<open>
  C4. For every registry state, \<^verbatim>\<open>Prune\<close> removes exactly the backends whose age
  \<open>now - LastSeen\<close> exceeds \<open>staleAfter\<close>: a slug stays in \<^verbatim>\<open>backends\<close> with its record
  if and only if that record is not stale; the entry of \<^verbatim>\<open>byPort\<close> for the port of every
  removed backend is removed and every other entry stays; the returned slice holds exactly the
  removed slugs, each once; no stale backend remains afterwards.
\<close>

theorem Prune_removes_exactly_the_stale:
  "(\<forall>s. DAList.lookup (backends (snd (Prune now r))) s =
          (case DAList.lookup (backends r) s of
             None \<Rightarrow> None
           | Some b \<Rightarrow> if stale now (staleAfter r) b then None else Some b))
   \<and> (\<forall>p. DAList.lookup (byPort (snd (Prune now r))) p =
          (if \<exists>s b. DAList.lookup (backends r) s = Some b \<and> stale now (staleAfter r) b
                \<and> Port b = p
           then None else DAList.lookup (byPort r) p))
   \<and> set (fst (Prune now r)) =
        {s. \<exists>b. DAList.lookup (backends r) s = Some b \<and> stale now (staleAfter r) b}
   \<and> distinct (fst (Prune now r))
   \<and> (\<forall>s b. DAList.lookup (backends (snd (Prune now r))) s = Some b
          \<longrightarrow> \<not> stale now (staleAfter r) b)
   \<and> staleAfter (snd (Prune now r)) = staleAfter r"
proof -
  let ?xs = "DAList.impl_of (backends r)"
  let ?sa = "staleAfter r"
  obtain bs' bp' rm' where
    f: "fold (pruneStep now ?sa) ?xs (backends r, byPort r, []) = (bs', bp', rm')"
    by (cases "fold (pruneStep now ?sa) ?xs (backends r, byPort r, [])") auto
  then have p: "Prune now r = (rm', r\<lparr>backends := bs', byPort := bp'\<rparr>)"
    by (simp add: Prune_def)
  note c = fold_pruneStep [OF f]
  have a: "DAList.lookup bs' s =
          (case DAList.lookup (backends r) s of
             None \<Rightarrow> None
           | Some b \<Rightarrow> if stale now ?sa b then None else Some b)" for s
    using c by (auto simp: in_impl_of_iff split: option.splits)
  have b: "DAList.lookup bp' p =
          (if \<exists>s b. DAList.lookup (backends r) s = Some b \<and> stale now ?sa b \<and> Port b = p
           then None else DAList.lookup (byPort r) p)" for p
    using c by (simp add: in_impl_of_iff)
  have rm: "rm' = map fst (filter (\<lambda>e. stale now ?sa (snd e)) ?xs)"
    using c by simp
  have s: "set rm' = {s. \<exists>b. DAList.lookup (backends r) s = Some b \<and> stale now ?sa b}"
    unfolding rm using in_impl_of_iff [of _ _ "backends r"] by force
  have "distinct (map fst ?xs)" by simp
  then have d: "distinct rm'"
    unfolding rm by (rule distinct_map_filter)
  have e: "\<not> stale now ?sa b" if "DAList.lookup bs' s = Some b" for s b
    using that a [of s] by (auto split: option.splits if_splits)
  show ?thesis
    using a b s d e by (simp add: p)
qed

theorem Prune_removes_exactly_the_stale_witness:
  "set (fst (Prune 100 projRegistry)) = {str ''proj''}
   \<and> DAList.lookup (backends (snd (Prune 100 projRegistry))) (str ''proj'') = None
   \<and> DAList.lookup (byPort (snd (Prune 100 projRegistry))) 4096 = None
   \<and> set (fst (Prune 20 projRegistry)) = {}
   \<and> DAList.lookup (backends (snd (Prune 20 projRegistry))) (str ''proj'') = Some projBackend"
  using Prune_removes_exactly_the_stale [of 100 projRegistry]
    Prune_removes_exactly_the_stale [of 20 projRegistry]
  by (simp add: projRegistry_def projBackend_def stale_def lookup_update_if)

section \<open>Upsert: slug collision\<close>

text \<open>
  C2. When \<^verbatim>\<open>backends\<close> holds, under \<open>Slugify path\<close>, a backend of another project path and
  another port, \<^verbatim>\<open>Upsert\<close> returns \<^emph>\<open>new\<close>, stores a fresh record under the slug followed by
  a hyphen and the decimal port, points \<^verbatim>\<open>byPort[port]\<close> at that slug, and leaves the record
  under \<open>Slugify path\<close> as it was.
\<close>

theorem Upsert_slug_collision:
  assumes "DAList.lookup (backends r) (Slugify lo projectPath) = Some existing"
    and "ProjectPath existing \<noteq> projectPath"
    and "Port existing \<noteq> port"
  shows "fst (Upsert lo port projectName projectPath version now r) = True
    \<and> DAList.lookup (backends (snd (Upsert lo port projectName projectPath version now r)))
         (Slugify lo projectPath @ str ''-'' @ formatInt port)
       = Some \<lparr>Port = port, ProjectName = projectName, ProjectPath = projectPath,
               Slug = Slugify lo projectPath @ str ''-'' @ formatInt port,
               Version = version, LastSeen = now\<rparr>
    \<and> DAList.lookup (byPort (snd (Upsert lo port projectName projectPath version now r))) port
       = Some (Slugify lo projectPath @ str ''-'' @ formatInt port)
    \<and> DAList.lookup (backends (snd (Upsert lo port projectName projectPath version now r)))
         (Slugify lo projectPath) = Some existing"
proof -
  define slug where "slug = Slugify lo projectPath"
  define bs where "bs = (case DAList.lookup (byPort r) port of
                  Some oldSlug \<Rightarrow>
                    if oldSlug \<noteq> slug then DAList.delete oldSlug (backends r) else backends r
                | None \<Rightarrow> backends r)"
  have l: "DAList.lookup bs slug = Some existing"
    using assms(1) by (auto simp: bs_def slug_def split: option.splits)
  have u: "Upsert lo port projectName projectPath version now r =
      insertBackend (slug @ [hyphen] @ formatInt port) port projectName projectPath version now bs r"
    using l assms(2,3) unfolding Upsert_def Let_def slug_def [symmetric] bs_def [symmetric]
    by simp
  have ne: "slug \<noteq> slug @ [hyphen] @ formatInt port" by simp
  show ?thesis
    unfolding slug_def [symmetric] u using l ne
    by (simp add: insertBackend_def str_def lookup_update_if)
qed

theorem Upsert_slug_collision_witness:
  "fst (Upsert id 4097 (str ''proj'') (str ''/b/proj'') (str ''1'') 7 projRegistry) = True
   \<and> DAList.lookup
        (byPort (snd (Upsert id 4097 (str ''proj'') (str ''/b/proj'') (str ''1'') 7 projRegistry)))
        4097 = Some (str ''proj-4097'')
   \<and> DAList.lookup
        (backends (snd (Upsert id 4097 (str ''proj'') (str ''/b/proj'') (str ''1'') 7 projRegistry)))
        (str ''proj'') = Some projBackend"
proof -
  have 1: "DAList.lookup (backends projRegistry) (Slugify id (str ''/b/proj'')) = Some projBackend"
    by (simp add: Slugify_b_proj projRegistry_def)
  have 2: "ProjectPath projBackend \<noteq> str ''/b/proj''"
    by (simp add: projBackend_def str_def)
  have 3: "Port projBackend \<noteq> 4097"
    by (simp add: projBackend_def)
  have 4: "str ''proj'' @ str ''-'' @ str ''4097'' = str ''proj-4097''"
    by (simp add: str_def)
  from Upsert_slug_collision [OF 1 2 3, of "str ''proj''" "str ''1''" 7]
  show ?thesis by (simp add: Slugify_b_proj formatInt_4097 4)
qed

section \<open>Upsert: scenarios\<close>

lemma reassign_state:
  "run lo (reassign t1 t2) (New sa) =
     \<lparr>backends = DAList.update (str ''proj'')
         \<lparr>Port = 4097, ProjectName = str ''proj'', ProjectPath = str ''/h/a/proj'',
          Slug = str ''proj'', Version = str ''1'', LastSeen = t2\<rparr> DAList.empty,
      byPort = DAList.update 4097 (str ''proj'') (DAList.delete 4096 (DAList.update 4096 (str ''proj'') DAList.empty)),
      staleAfter = sa\<rparr>"
  by (simp add: reassign_def run_def Upsert_def Let_def insertBackend_def New_def Slugify_h_a_proj)

text \<open>
  C3. Port reassignment: on an empty registry, after \<^verbatim>\<open>Upsert(4096, "proj", "/h/a/proj", "1")\<close>
  and \<^verbatim>\<open>Upsert(4097, "proj", "/h/a/proj", "1")\<close> exactly one backend remains, on port 4097;
  \<^verbatim>\<open>LookupByPort(4096)\<close> misses and \<^verbatim>\<open>LookupByPort(4097)\<close> returns the backend with slug
  \<^verbatim>\<open>proj\<close>. This holds at whatever instants the two calls are made.
\<close>

theorem port_reassignment:
  "Len (run lo (reassign t1 t2) (New sa)) = 1
   \<and> map Port (All_backends (run lo (reassign t1 t2) (New sa))) = [4097]
   \<and> LookupByPort (run lo (reassign t1 t2) (New sa)) 4096 = Inr None
   \<and> LookupByPort (run lo (reassign t1 t2) (New sa)) 4097 =
       Inr (Some \<lparr>Port = 4097, ProjectName = str ''proj'', ProjectPath = str ''/h/a/proj'',
                  Slug = str ''proj'', Version = str ''1'', LastSeen = t2\<rparr>)"
  unfolding reassign_state
  by (simp add: Len_def All_backends_def LookupByPort_def DAList.update.rep_eq DAList.empty.rep_eq)

theorem port_reassignment_witness:
  "Len (run id (reassign 0 5) (New 50)) = 1
   \<and> LookupByPort (run id (reassign 0 5) (New 50)) 4096 = Inr None"
  using port_reassignment [of id 0 5 50] by simp

section \<open>The invariants of the two maps\<close>

lemma collision_run: "run lo collisionCalls (New sa) = collisionState sa"
  by (simp add: collisionCalls_def collisionState_def run_def Upsert_def Let_def
      insertBackend_def New_def Slugify_x_proj_4097 Slugify_a_proj Slugify_b_proj
      formatInt_4097 slug_keys)

text \<open>
  C1. The specification states that I1 to I4 hold after any sequence of \<^verbatim>\<open>Upsert\<close> and
  \<^verbatim>\<open>Prune\<close> calls. After the three calls of \<open>collisionCalls\<close> on an empty registry, I1
  and I4 hold but I2 and I3 do not: the collision branch overwrote the record that port 5000 had
  under \<^verbatim>\<open>proj-4097\<close> and left \<^verbatim>\<open>byPort[5000]\<close> in place, so ports 5000 and 4097 both
  map to the slug \<^verbatim>\<open>proj-4097\<close>.
\<close>

theorem collision_breaks_port_index:
  "I1 (run lo collisionCalls (New sa)) \<and> I4 (run lo collisionCalls (New sa))
   \<and> \<not> I2 (run lo collisionCalls (New sa)) \<and> \<not> I3 (run lo collisionCalls (New sa))"
proof -
  let ?r = "collisionState sa"
  have p: "DAList.lookup (byPort ?r) 5000 = Some (str ''proj-4097'')"
    "DAList.lookup (byPort ?r) 4097 = Some (str ''proj-4097'')"
    by (simp_all add: collisionState_def)
  have b: "DAList.lookup (backends ?r) (str ''proj-4097'') =
     Some \<lparr>Port = 4097, ProjectName = str ''proj'', ProjectPath = str ''/b/proj'',
           Slug = str ''proj-4097'', Version = str ''1'', LastSeen = 0\<rparr>"
    by (simp add: collisionState_def)
  have i1: "I1 ?r"
    by (auto simp: I1_def collisionState_def lookup_update_if slug_keys split: if_splits)
  have i4: "I4 ?r"
    by (auto simp: I4_def collisionState_def lookup_update_if slug_keys split: if_splits)
  have i2: "\<not> I2 ?r"
  proof
    assume "I2 ?r"
    with p have "(5000::int) = 4097" unfolding I2_def by blast
    then show False by simp
  qed
  have i3: "\<not> I3 ?r"
  proof
    assume "I3 ?r"
    with b have "\<exists>!p. DAList.lookup (byPort ?r) p = Some (str ''proj-4097'')"
      unfolding I3_def by blast
    with p have "(5000::int) = 4097" by blast
    then show False by simp
  qed
  show ?thesis unfolding collision_run using i1 i2 i3 i4 by simp
qed

theorem collision_breaks_port_index_witness:
  "\<not> I2 (run id collisionCalls (New 50)) \<and> \<not> I3 (run id collisionCalls (New 50))"
  using collision_breaks_port_index [of id 50] by simp

text \<open>
  C10. The claim is that every slug stored in \<^verbatim>\<open>byPort\<close> is a key of \<^verbatim>\<open>backends\<close> in every
  reachable state, so that \<^verbatim>\<open>LookupByPort\<close> never dereferences nil. After the three calls of
  \<open>collisionCalls\<close>, port 5000 changes project: \<^verbatim>\<open>Upsert\<close> deletes the record under
  \<^verbatim>\<open>byPort[5000]\<close>, which is the record of port 4097, and \<^verbatim>\<open>byPort[4097]\<close> is left pointing
  at a slug that is no key of \<^verbatim>\<open>backends\<close>: \<^verbatim>\<open>LookupByPort(4097)\<close> panics.
\<close>

theorem LookupByPort_panics_after_collision:
  "LookupByPort
     (run lo (collisionCalls @ [CallUpsert 5000 (str ''other'') (str ''/x/other'') (str ''1'') 0])
        (New sa)) 4097 = Inl NilPointerDereference
   \<and> \<not> byPortLive
     (run lo (collisionCalls @ [CallUpsert 5000 (str ''other'') (str ''/x/other'') (str ''1'') 0])
        (New sa))"
proof -
  let ?r = "run lo (collisionCalls @ [CallUpsert 5000 (str ''other'') (str ''/x/other'') (str ''1'') 0])
        (New sa)"
  have r: "?r = snd (Upsert lo 5000 (str ''other'') (str ''/x/other'') (str ''1'') 0 (collisionState sa))"
    using collision_run [of lo sa] by (simp add: run_def)
  have p: "DAList.lookup (byPort ?r) 4097 = Some (str ''proj-4097'')"
    unfolding r
    by (simp add: collisionState_def Upsert_def Let_def insertBackend_def Slugify_x_other
        slug_keys lookup_update_if)
  have b: "DAList.lookup (backends ?r) (str ''proj-4097'') = None"
    unfolding r
    by (simp add: collisionState_def Upsert_def Let_def insertBackend_def Slugify_x_other
        slug_keys lookup_update_if)
  from p b have "LookupByPort ?r 4097 = Inl NilPointerDereference"
    by (simp add: LookupByPort_def)
  moreover from p b have "\<not> byPortLive ?r"
    unfolding byPortLive_def by blast
  ultimately show ?thesis by simp
qed

theorem LookupByPort_panics_after_collision_witness:
  "LookupByPort
     (run id (collisionCalls @ [CallUpsert 5000 (str ''other'') (str ''/x/other'') (str ''1'') 0])
        (New 50)) 4097 = Inl NilPointerDereference"
  using LookupByPort_panics_after_collision [of id 50] by simp

section \<open>The keys of the registry are path segments\<close>

lemma decimalDigits_set: "set (decimalDigits n) \<subseteq> {48..57}"
proof (induction n rule: decimalDigits.induct)
  case (1 n)
  show ?case
  proof (cases "n < 10")
    case True
    then show ?thesis by (simp add: decimalDigits.simps [of n])
  next
    case False
    have "n mod 10 < 10" by simp
    then have "48 + n mod 10 \<in> {48..57}" by simp
    with 1 False show ?thesis by (simp add: decimalDigits.simps [of n])
  qed
qed

lemma formatInt_no_slash: "slash \<notin> set (formatInt i)"
  using decimalDigits_set [of "nat i"] decimalDigits_set [of "nat (- i)"]
  by (auto simp: formatInt_def)

lemma slugShaped_no_slash: "slugShaped s \<Longrightarrow> s \<noteq> [] \<and> slash \<notin> set s"
  using slugRune_facts by (auto simp: slugShaped_def list_all_iff)

lemma Slugify_no_slash: "Slugify lo p \<noteq> [] \<and> slash \<notin> set (Slugify lo p)"
  by (rule slugShaped_no_slash) (rule Slugify_slugShaped)

lemma Upsert_backends_lookup:
  assumes "DAList.lookup (backends (snd (Upsert lo port name path version now r))) s = Some b"
  shows "s = Slugify lo path \<or> s = Slugify lo path @ [hyphen] @ formatInt port
         \<or> DAList.lookup (backends r) s = Some b"
  using assms
  by (auto simp: Upsert_def Let_def insertBackend_def lookup_update_if
           split: option.splits if_splits)

lemma Prune_backends_lookup:
  "DAList.lookup (backends (snd (Prune now r))) s =
     (case DAList.lookup (backends r) s of
        None \<Rightarrow> None
      | Some b \<Rightarrow> if stale now (staleAfter r) b then None else Some b)"
proof -
  obtain bs' bp' rm' where
    f: "fold (pruneStep now (staleAfter r)) (DAList.impl_of (backends r))
          (backends r, byPort r, []) = (bs', bp', rm')"
    using prod_cases3 by blast
  then have p: "Prune now r = (rm', r\<lparr>backends := bs', byPort := bp'\<rparr>)"
    by (simp add: Prune_def)
  from fold_pruneStep [OF f] show ?thesis
    by (auto simp: p in_impl_of_iff split: option.splits)
qed

lemma exec_slugKeys: "slugKeys r \<Longrightarrow> slugKeys (exec lo c r)"
proof (cases c)
  case (CallUpsert port name path version now)
  assume k: "slugKeys r"
  show ?thesis
    unfolding slugKeys_def
  proof (intro allI impI)
    fix s b
    assume "DAList.lookup (backends (exec lo c r)) s = Some b"
    with CallUpsert have
      "s = Slugify lo path \<or> s = Slugify lo path @ [hyphen] @ formatInt port
         \<or> DAList.lookup (backends r) s = Some b"
      using Upsert_backends_lookup by simp
    with k show "s \<noteq> [] \<and> slash \<notin> set s"
      using Slugify_no_slash [of lo path] formatInt_no_slash [of port]
      by (auto simp: slugKeys_def)
  qed
next
  case (CallPrune now)
  assume k: "slugKeys r"
  show ?thesis
    unfolding slugKeys_def
  proof (intro allI impI)
    fix s b
    assume "DAList.lookup (backends (exec lo c r)) s = Some b"
    with CallPrune have "DAList.lookup (backends r) s = Some b"
      by (simp add: Prune_backends_lookup split: option.splits if_splits)
    with k show "s \<noteq> [] \<and> slash \<notin> set s" by (simp add: slugKeys_def)
  qed
qed

lemma run_slugKeys: "slugKeys (run lo calls (New sa))"
proof (induction calls rule: rev_induct)
  case Nil
  show ?case by (simp add: run_def New_def slugKeys_def)
next
  case (snoc c calls)
  then show ?case by (simp add: run_def exec_slugKeys)
qed

lemma takeWhile_to_slash:
  "slash \<notin> set s \<Longrightarrow> takeWhile (\<lambda>c. c \<noteq> slash) (s @ slash # t) = s"
  by (induction s) auto

lemma dropWhile_to_slash:
  "slash \<notin> set s \<Longrightarrow> dropWhile (\<lambda>c. c \<noteq> slash) (s @ slash # t) = slash # t"
  by (induction s) auto

lemma slugFromPath_segment:
  assumes "s \<noteq> []" and "slash \<notin> set s" and "t = [] \<or> hd t = slash"
  shows "slugFromPath (str ''/'' @ s @ t) = (s, if t = [] then str ''/'' else t)"
proof -
  have tp: "TrimPrefix (str ''/'' @ s @ t) (str ''/'') = s @ t"
    by (simp add: TrimPrefix_def HasPrefix_def str_def)
  show ?thesis
  proof (cases t)
    case Nil
    with assms have "SplitN2 (s @ t) = [s]" by (simp add: SplitN2_def)
    with Nil assms(1) tp show ?thesis by (simp add: slugFromPath_def)
  next
    case (Cons c t')
    with assms(3) have t: "t = slash # t'" by simp
    from assms(2) have "takeWhile (\<lambda>c. c \<noteq> slash) (s @ slash # t') = s"
      by (rule takeWhile_to_slash)
    moreover from assms(2) have "dropWhile (\<lambda>c. c \<noteq> slash) (s @ slash # t') = slash # t'"
      by (rule dropWhile_to_slash)
    ultimately have "SplitN2 (s @ t) = [s, t']" by (simp add: SplitN2_def t)
    with t assms(1) tp show ?thesis by (simp add: slugFromPath_def str_def)
  qed
qed

lemma ServeHTTP_path_hit:
  assumes "hostMiss cfg r req" and "slugFromPath (URLPath req) = (s, rem)" and "s \<noteq> []"
    and "Lookup r s = Some b"
  shows "ServeHTTP lo cfg r req = proxyTo b req rem"
  using assms by (auto simp: ServeHTTP_def hostMiss_def Let_def)

section \<open>Routing\<close>

lemma projCalls_run: "run lo projCalls (New 50) = projRegistry"
  by (simp add: projCalls_def run_def Upsert_def Let_def insertBackend_def New_def
      Slugify_a_proj projRegistry_def projBackend_def)

lemma localhost_no_slug: "slugFromHost cfg (str ''localhost:8080'') = []"
  by (simp add: slugFromHost_def HasSuffix_def str_def)

lemma getRequest_hostMiss: "hostMiss cfg r (getRequest path q)"
  by (simp add: hostMiss_def getRequest_def localhost_no_slug)

lemma slugFromPath_api:
  "slugFromPath (str ''/api/backends'') = (str ''api'', str ''/backends'')"
  "slugFromPath (str ''/api/health'') = (str ''api'', str ''/health'')"
  "slugFromPath (str ''/api/resolve'') = (str ''api'', str ''/resolve'')"
  by (simp_all add: slugFromPath_def TrimPrefix_def HasPrefix_def SplitN2_def str_def)

lemma ServeHTTP_host_hit:
  assumes "slugFromHost cfg (Host req) \<noteq> []"
    and "Lookup r (slugFromHost cfg (Host req)) = Some hb"
  shows "ServeHTTP lo cfg r req = proxyTo hb req []"
  using assms by (simp add: ServeHTTP_def Let_def)

lemma ServeHTTP_miss:
  assumes "hostMiss cfg r req" and "pathMiss r req"
  shows "ServeHTTP lo cfg r req =
     (if URLPath req = str ''/api/backends'' then Respond (handleAPIBackends cfg r req)
      else if URLPath req = str ''/api/health'' then Respond (handleAPIHealth cfg r req)
      else if URLPath req = str ''/api/resolve'' then Respond (handleAPIResolve lo cfg r req)
      else Dashboard (All_backends r))"
proof -
  from assms(1) have h:
    "(if slugFromHost cfg (Host req) \<noteq> [] then Lookup r (slugFromHost cfg (Host req))
      else None) = None"
    unfolding hostMiss_def by presburger
  obtain s rem where p: "slugFromPath (URLPath req) = (s, rem)"
    by (cases "slugFromPath (URLPath req)")
  with assms(2) have q: "(if s \<noteq> [] then Lookup r s else None) = None"
    unfolding pathMiss_def by auto
  show ?thesis
    unfolding ServeHTTP_def Let_def h p by (simp add: q)
qed

text \<open>
  C6, as amended. In a registry reached from the empty one by \<^verbatim>\<open>Upsert\<close> and \<^verbatim>\<open>Prune\<close>
  calls, let \<open>s\<close> be a registered slug and let the suffix \<open>t\<close> be empty or begin with a
  slash. A request that host-based routing does not take and whose URL path is \<^verbatim>\<open>/\<close>
  followed by \<open>s\<close> and \<open>t\<close> is proxied to the backend of \<open>s\<close> with the path override
  \<open>t\<close>, or \<^verbatim>\<open>/\<close> when \<open>t\<close> is empty; \<^verbatim>\<open>proxyTo\<close> forwards it with exactly that
  outbound path whenever the port of the backend is not negative.
\<close>

theorem path_routing_strips_first_segment:
  assumes "DAList.lookup (backends (run lo calls (New sa))) s = Some b"
    and "t = [] \<or> hd t = slash"
    and "hostMiss cfg (run lo calls (New sa)) req"
    and "URLPath req = str ''/'' @ s @ t"
  shows "ServeHTTP lo cfg (run lo calls (New sa)) req =
           proxyTo b req (if t = [] then str ''/'' else t)
    \<and> (0 \<le> Port b \<longrightarrow>
          ServeHTTP lo cfg (run lo calls (New sa)) req =
            Forward (Port b) (if t = [] then str ''/'' else t))"
proof -
  let ?r = "run lo calls (New sa)"
  from assms(1) run_slugKeys [of lo calls sa] have s: "s \<noteq> []" "slash \<notin> set s"
    unfolding slugKeys_def by blast+
  from s assms(2) have p: "slugFromPath (URLPath req) = (s, if t = [] then str ''/'' else t)"
    unfolding assms(4) by (rule slugFromPath_segment)
  from assms(1) have l: "Lookup ?r s = Some b" by (simp add: Lookup_def)
  have e: "ServeHTTP lo cfg ?r req = proxyTo b req (if t = [] then str ''/'' else t)"
    using assms(3) p s(1) l by (rule ServeHTTP_path_hit)
  have "(if t = [] then str ''/'' else t) \<noteq> []" by (simp add: str_def)
  then have "0 \<le> Port b \<Longrightarrow>
      proxyTo b req (if t = [] then str ''/'' else t)
        = Forward (Port b) (if t = [] then str ''/'' else t)"
    by (simp add: proxyTo_def)
  with e show ?thesis by simp
qed

theorem path_routing_strips_first_segment_witness:
  "ServeHTTP id exampleConfig (run id projCalls (New 50))
     (getRequest (str ''/'' @ str ''proj'' @ str ''/api/v1/health'') Map.empty)
   = Forward 4096 (str ''/api/v1/health'')"
proof -
  let ?req = "getRequest (str ''/'' @ str ''proj'' @ str ''/api/v1/health'') Map.empty"
  have 1: "DAList.lookup (backends (run id projCalls (New 50))) (str ''proj'') = Some projBackend"
    by (simp add: projCalls_run projRegistry_def)
  have 2: "str ''/api/v1/health'' = [] \<or> hd (str ''/api/v1/health'') = slash"
    by (simp add: str_def)
  have 3: "hostMiss exampleConfig (run id projCalls (New 50)) ?req"
    by (rule getRequest_hostMiss)
  have 4: "URLPath ?req = str ''/'' @ str ''proj'' @ str ''/api/v1/health''"
    by (simp add: getRequest_def)
  have 5: "0 \<le> Port projBackend" "Port projBackend = 4096" "str ''/api/v1/health'' \<noteq> []"
    by (simp_all add: projBackend_def str_def)
  have "0 \<le> Port projBackend \<longrightarrow>
          ServeHTTP id exampleConfig (run id projCalls (New 50)) ?req =
            Forward (Port projBackend)
              (if str ''/api/v1/health'' = [] then str ''/'' else str ''/api/v1/health'')"
    using path_routing_strips_first_segment [OF 1 2 3 4] by (rule conjunct2)
  with 5 show ?thesis by simp
qed

text \<open>
  C6, as stated, quantifies over every suffix \<open>t\<close>. For the registered slug \<^verbatim>\<open>proj\<close> and
  the suffix \<^verbatim>\<open>x\<close> the path is \<^verbatim>\<open>/projx\<close>: its first segment is \<^verbatim>\<open>projx\<close>, no registered
  slug, and the request gets the dashboard instead of being forwarded with path \<^verbatim>\<open>x\<close>.
\<close>

theorem path_routing_needs_a_segment_boundary:
  "DAList.lookup (backends (run id projCalls (New 50))) (str ''proj'') = Some projBackend
   \<and> hostMiss exampleConfig (run id projCalls (New 50))
        (getRequest (str ''/'' @ str ''proj'' @ str ''x'') Map.empty)
   \<and> ServeHTTP id exampleConfig (run id projCalls (New 50))
        (getRequest (str ''/'' @ str ''proj'' @ str ''x'') Map.empty) = Dashboard [projBackend]
   \<and> ServeHTTP id exampleConfig (run id projCalls (New 50))
        (getRequest (str ''/'' @ str ''proj'' @ str ''x'') Map.empty)
       \<noteq> Forward (Port projBackend) (str ''x'')"
proof -
  let ?req = "getRequest (str ''/'' @ str ''proj'' @ str ''x'') Map.empty"
  have p: "slugFromPath (URLPath ?req) = (str ''projx'', str ''/'')"
    by (simp add: getRequest_def slugFromPath_def TrimPrefix_def HasPrefix_def SplitN2_def str_def)
  have "Lookup projRegistry (str ''projx'') = None"
    by (simp add: Lookup_def projRegistry_def str_def)
  with p have "pathMiss projRegistry ?req" by (simp add: pathMiss_def)
  with getRequest_hostMiss have "ServeHTTP id exampleConfig projRegistry ?req = Dashboard (All_backends projRegistry)"
    by (simp add: ServeHTTP_miss) (simp add: getRequest_def str_def)
  moreover have "All_backends projRegistry = [projBackend]"
    by (simp add: All_backends_def projRegistry_def DAList.update.rep_eq DAList.empty.rep_eq)
  ultimately show ?thesis
    using getRequest_hostMiss by (simp add: projCalls_run) (simp add: projRegistry_def)
qed

text \<open>
  C7. \<^verbatim>\<open>ServeHTTP\<close> classifies in the order host-based proxy, path-based proxy, exact-path
  control API, dashboard: a registered slug in the \<^verbatim>\<open>Host\<close> header wins whatever the path is;
  failing that, a registered first path segment wins, with the rest of the path as override;
  failing both, the three exact API paths are dispatched and everything else is the dashboard.
  In particular, once the host stage has passed the request on, a registered slug \<^verbatim>\<open>api\<close>
  takes \<^verbatim>\<open>/api/backends\<close>, \<^verbatim>\<open>/api/health\<close> and \<^verbatim>\<open>/api/resolve\<close> away from the control API.
\<close>

theorem routing_precedence:
  "(slugFromHost cfg (Host req) \<noteq> [] \<and> Lookup r (slugFromHost cfg (Host req)) = Some hb
      \<longrightarrow> ServeHTTP lo cfg r req = proxyTo hb req [])
   \<and> (hostMiss cfg r req \<and> fst (slugFromPath (URLPath req)) \<noteq> []
        \<and> Lookup r (fst (slugFromPath (URLPath req))) = Some pb
      \<longrightarrow> ServeHTTP lo cfg r req = proxyTo pb req (snd (slugFromPath (URLPath req))))
   \<and> (hostMiss cfg r req \<and> pathMiss r req
      \<longrightarrow> ServeHTTP lo cfg r req =
           (if URLPath req = str ''/api/backends'' then Respond (handleAPIBackends cfg r req)
            else if URLPath req = str ''/api/health'' then Respond (handleAPIHealth cfg r req)
            else if URLPath req = str ''/api/resolve''
            then Respond (handleAPIResolve lo cfg r req)
            else Dashboard (All_backends r)))
   \<and> (hostMiss cfg r req \<and> Lookup r (str ''api'') = Some ab
      \<longrightarrow> (URLPath req = str ''/api/backends''
             \<longrightarrow> ServeHTTP lo cfg r req = proxyTo ab req (str ''/backends''))
        \<and> (URLPath req = str ''/api/health''
             \<longrightarrow> ServeHTTP lo cfg r req = proxyTo ab req (str ''/health''))
        \<and> (URLPath req = str ''/api/resolve''
             \<longrightarrow> ServeHTTP lo cfg r req = proxyTo ab req (str ''/resolve'')))"
proof (intro conjI impI)
  assume "slugFromHost cfg (Host req) \<noteq> [] \<and> Lookup r (slugFromHost cfg (Host req)) = Some hb"
  then show "ServeHTTP lo cfg r req = proxyTo hb req []"
    by (simp add: ServeHTTP_host_hit)
next
  assume a: "hostMiss cfg r req \<and> fst (slugFromPath (URLPath req)) \<noteq> []
        \<and> Lookup r (fst (slugFromPath (URLPath req))) = Some pb"
  have "slugFromPath (URLPath req) = (fst (slugFromPath (URLPath req)), snd (slugFromPath (URLPath req)))"
    by simp
  with a show "ServeHTTP lo cfg r req = proxyTo pb req (snd (slugFromPath (URLPath req)))"
    using ServeHTTP_path_hit by blast
next
  assume "hostMiss cfg r req \<and> pathMiss r req"
  then show "ServeHTTP lo cfg r req =
           (if URLPath req = str ''/api/backends'' then Respond (handleAPIBackends cfg r req)
            else if URLPath req = str ''/api/health'' then Respond (handleAPIHealth cfg r req)
            else if URLPath req = str ''/api/resolve''
            then Respond (handleAPIResolve lo cfg r req)
            else Dashboard (All_backends r))"
    using ServeHTTP_miss by blast
next
  assume a: "hostMiss cfg r req \<and> Lookup r (str ''api'') = Some ab"
    and u: "URLPath req = str ''/api/backends''"
  have "str ''api'' \<noteq> []" by (simp add: str_def)
  with a u show "ServeHTTP lo cfg r req = proxyTo ab req (str ''/backends'')"
    using ServeHTTP_path_hit [of cfg r req "str ''api''" "str ''/backends''" ab lo]
    by (simp add: slugFromPath_api)
next
  assume a: "hostMiss cfg r req \<and> Lookup r (str ''api'') = Some ab"
    and u: "URLPath req = str ''/api/health''"
  have "str ''api'' \<noteq> []" by (simp add: str_def)
  with a u show "ServeHTTP lo cfg r req = proxyTo ab req (str ''/health'')"
    using ServeHTTP_path_hit [of cfg r req "str ''api''" "str ''/health''" ab lo]
    by (simp add: slugFromPath_api)
next
  assume a: "hostMiss cfg r req \<and> Lookup r (str ''api'') = Some ab"
    and u: "URLPath req = str ''/api/resolve''"
  have "str ''api'' \<noteq> []" by (simp add: str_def)
  with a u show "ServeHTTP lo cfg r req = proxyTo ab req (str ''/resolve'')"
    using ServeHTTP_path_hit [of cfg r req "str ''api''" "str ''/resolve''" ab lo]
    by (simp add: slugFromPath_api)
qed

theorem routing_precedence_witness:
  "ServeHTTP id exampleConfig apiRegistry (getRequest (str ''/api/backends'') Map.empty)
     = Forward 4096 (str ''/backends'')"
proof -
  let ?req = "getRequest (str ''/api/backends'') Map.empty"
  have 1: "hostMiss exampleConfig apiRegistry ?req" by (rule getRequest_hostMiss)
  have 2: "Lookup apiRegistry (str ''api'') = Some apiBackend"
    by (simp add: Lookup_def apiRegistry_def)
  have 3: "URLPath ?req = str ''/api/backends''" by (simp add: getRequest_def)
  from routing_precedence [of exampleConfig ?req apiRegistry _ id _ apiBackend] 1 2 3
  have "ServeHTTP id exampleConfig apiRegistry ?req = proxyTo apiBackend ?req (str ''/backends'')"
    by blast
  then show ?thesis by (simp add: proxyTo_def apiBackend_def str_def)
qed

section \<open>The resolve endpoint\<close>

lemma ServeHTTP_resolve:
  assumes "URLPath req = str ''/api/resolve''" and "hostMiss cfg r req"
    and "Lookup r (str ''api'') = None"
  shows "ServeHTTP lo cfg r req = Respond (handleAPIResolve lo cfg r req)"
proof -
  from assms(1,3) have "pathMiss r req"
    by (simp add: pathMiss_def slugFromPath_api)
  with assms(2) have "ServeHTTP lo cfg r req =
     (if URLPath req = str ''/api/backends'' then Respond (handleAPIBackends cfg r req)
      else if URLPath req = str ''/api/health'' then Respond (handleAPIHealth cfg r req)
      else if URLPath req = str ''/api/resolve'' then Respond (handleAPIResolve lo cfg r req)
      else Dashboard (All_backends r))"
    by (rule ServeHTTP_miss)
  moreover have "str ''/api/resolve'' \<noteq> str ''/api/backends''"
    "str ''/api/resolve'' \<noteq> str ''/api/health''"
    by (simp_all add: str_def)
  ultimately show ?thesis using assms(1) by simp
qed

text \<open>
  C8, as amended. For a request to \<^verbatim>\<open>/api/resolve\<close> that no registered slug shadows: every
  method but \<^verbatim>\<open>GET\<close> gets 405; a \<^verbatim>\<open>GET\<close> in which neither \<^verbatim>\<open>path\<close> nor \<^verbatim>\<open>name\<close> has a
  non-empty value gets 400 with the message about the missing parameter; a \<^verbatim>\<open>GET\<close> with a
  non-empty \<^verbatim>\<open>path\<close> that \<^verbatim>\<open>LookupByPath\<close> does not resolve, or with no \<^verbatim>\<open>path\<close> value and a
  non-empty \<^verbatim>\<open>name\<close> whose slug is not registered, gets 404 with a JSON body whose
  \<^verbatim>\<open>error\<close> is \<^verbatim>\<open>not_found\<close> and whose \<^verbatim>\<open>query\<close> is the value looked up.
\<close>

theorem resolve_statuses:
  assumes \<open>URLPath req = str ''/api/resolve''\<close> and \<open>hostMiss cfg r req\<close>
    and \<open>Lookup r (str ''api'') = None\<close>
  shows \<open>(Method req \<noteq> str ''GET'' \<longrightarrow>
            ServeHTTP lo cfg r req =
              Respond \<lparr>StatusCode = 405, ContentType = str ''text/plain; charset=utf-8'',
                       Body = PlainText (str ''method not allowed'' @ [10])\<rparr>)
    \<and> (Method req = str ''GET'' \<and> queryGet req (str ''path'') = []
          \<and> queryGet req (str ''name'') = [] \<longrightarrow>
            ServeHTTP lo cfg r req =
              Respond \<lparr>StatusCode = 400, ContentType = str ''text/plain; charset=utf-8'',
                       Body = PlainText
                                (str ''missing "path" or "name" query parameter'' @ [10])\<rparr>)
    \<and> (Method req = str ''GET'' \<and> queryGet req (str ''path'') \<noteq> []
          \<and> LookupByPath lo r (queryGet req (str ''path'')) = None \<longrightarrow>
            ServeHTTP lo cfg r req =
              Respond \<lparr>StatusCode = 404, ContentType = str ''application/json'',
                       Body = JsonBody (JObject
                         [(str ''error'', JString (str ''not_found'')),
                          (str ''query'', JString (queryGet req (str ''path''))),
                          (str ''detail'', JString (str ''no backend found for this project''))])\<rparr>)
    \<and> (Method req = str ''GET'' \<and> queryGet req (str ''path'') = []
          \<and> queryGet req (str ''name'') \<noteq> []
          \<and> Lookup r (Slugify lo (queryGet req (str ''name''))) = None \<longrightarrow>
            ServeHTTP lo cfg r req =
              Respond \<lparr>StatusCode = 404, ContentType = str ''application/json'',
                       Body = JsonBody (JObject
                         [(str ''error'', JString (str ''not_found'')),
                          (str ''query'', JString (queryGet req (str ''name''))),
                          (str ''detail'', JString (str ''no backend found for this project''))])\<rparr>)\<close>
proof -
  have s: "ServeHTTP lo cfg r req = Respond (handleAPIResolve lo cfg r req)"
    using assms by (rule ServeHTTP_resolve)
  show ?thesis
    unfolding s by (simp add: handleAPIResolve_def httpError_def jsonResponse_def Let_def)
qed

theorem resolve_statuses_witness:
  "ServeHTTP id exampleConfig projRegistry
     (getRequest (str ''/api/resolve'') [str ''name'' \<mapsto> [str ''ghost'']])
   = Respond \<lparr>StatusCode = 404, ContentType = str ''application/json'',
              Body = JsonBody (JObject
                [(str ''error'', JString (str ''not_found'')),
                 (str ''query'', JString (str ''ghost'')),
                 (str ''detail'', JString (str ''no backend found for this project''))])\<rparr>"
proof -
  let ?req = "getRequest (str ''/api/resolve'') [str ''name'' \<mapsto> [str ''ghost'']]"
  have 1: "URLPath ?req = str ''/api/resolve''" by (simp add: getRequest_def)
  have 2: "hostMiss exampleConfig projRegistry ?req" by (rule getRequest_hostMiss)
  have 3: "Lookup projRegistry (str ''api'') = None"
    by (simp add: Lookup_def projRegistry_def str_def)
  have 4: "Method ?req = str ''GET''" by (simp add: getRequest_def)
  have 5: "queryGet ?req (str ''path'') = []" by (simp add: queryGet_def getRequest_def str_def)
  have 6: "queryGet ?req (str ''name'') = str ''ghost''"
    by (simp add: queryGet_def getRequest_def)
  have 7: "Slugify id (str ''ghost'') = str ''ghost''" by (simp add: slug_eval)
  have 8: "Lookup projRegistry (str ''ghost'') = None"
    by (simp add: Lookup_def projRegistry_def str_def)
  have 9: "str ''ghost'' \<noteq> []" by (simp add: str_def)
  from resolve_statuses [OF 1 2 3, of id] 4 5 6 7 8 9 show ?thesis by simp
qed

text \<open>
  C8, as stated, answers 404 whenever a parameter is present and no backend resolves. The request
  \<^verbatim>\<open>GET /api/resolve?path=\<close> carries the parameter \<^verbatim>\<open>path\<close>, with an empty value, and no
  backend resolves on an empty registry; \<^verbatim>\<open>Values.Get\<close> returns the empty string for it as it
  does for an absent key, and the answer is 400.
\<close>

theorem resolve_empty_parameter_is_400:
  "Query (getRequest (str ''/api/resolve'') [str ''path'' \<mapsto> [[]]]) (str ''path'') = Some [[]]
   \<and> LookupByPath id (New 50) [] = None
   \<and> statusOf (ServeHTTP id exampleConfig (New 50)
        (getRequest (str ''/api/resolve'') [str ''path'' \<mapsto> [[]]])) = Some 400"
proof -
  let ?req = "getRequest (str ''/api/resolve'') [str ''path'' \<mapsto> [[]]]"
  have 1: "URLPath ?req = str ''/api/resolve''" by (simp add: getRequest_def)
  have 2: "hostMiss exampleConfig (New 50) ?req" by (rule getRequest_hostMiss)
  have 3: "Lookup (New 50) (str ''api'') = None" by (simp add: Lookup_def New_def)
  have 4: "queryGet ?req (str ''path'') = []" "queryGet ?req (str ''name'') = []"
    by (simp_all add: queryGet_def getRequest_def str_def)
  have 5: "Method ?req = str ''GET''" by (simp add: getRequest_def)
  have "ServeHTTP id exampleConfig (New 50) ?req
          = Respond (handleAPIResolve id exampleConfig (New 50) ?req)"
    using 1 2 3 by (rule ServeHTTP_resolve)
  then have "statusOf (ServeHTTP id exampleConfig (New 50) ?req) = Some 400"
    using 4 5 by (simp add: handleAPIResolve_def httpError_def)
  moreover have "LookupByPath id (New 50) [] = None"
    by (simp add: LookupByPath_def New_def DAList.empty.rep_eq)
  moreover have "Query ?req (str ''path'') = Some [[]]" by (simp add: getRequest_def)
  ultimately show ?thesis by simp
qed

section \<open>The advertiser\<close>

lemma syncRemove_keep:
  "k \<in> set cur \<Longrightarrow> syncRemove shut cur (k, h) a = a"
  by (simp add: syncRemove_def)

lemma fold_syncRemove_id:
  "fst ` set xs \<subseteq> set cur \<Longrightarrow> fold (syncRemove shut cur) xs a = a"
proof (induction xs arbitrary: a)
  case Nil
  show ?case by simp
next
  case (Cons e xs)
  obtain k h where e: "e = (k, h)" by (cases e)
  with Cons.prems have "k \<in> set cur" by auto
  then have "syncRemove shut cur e a = a" unfolding e by (rule syncRemove_keep)
  moreover from Cons.prems have "fst ` set xs \<subseteq> set cur" by auto
  ultimately show ?case using Cons.IH by simp
qed

lemma fold_syncRemove_lookup:
  "DAList.lookup (servers (fold (syncRemove shut cur) xs a)) k =
     (if k \<in> fst ` set xs \<and> k \<notin> set cur then None else DAList.lookup (servers a) k)"
proof (induction xs arbitrary: a)
  case Nil
  show ?case by simp
next
  case (Cons e xs)
  obtain k' h where e: "e = (k', h)" by (cases e)
  show ?case
    unfolding e by (simp add: Cons.IH) (auto simp: syncRemove_def)
qed

lemma register_servers:
  "DAList.lookup (servers (snd (register reg cfg b a))) k = Some h \<Longrightarrow>
     k = Slug b \<or> DAList.lookup (servers a) k = Some h"
  by (auto simp: register_def Let_def lookup_update_if split: prod.splits option.splits if_splits)

lemma register_keeps:
  "DAList.lookup (servers a) k = Some h \<Longrightarrow> k \<noteq> Slug b \<Longrightarrow>
     DAList.lookup (servers (snd (register reg cfg b a))) k = Some h"
  by (auto simp: register_def Let_def lookup_update_if split: prod.splits option.splits)

lemma register_trace:
  "\<exists>result. trace (snd (register reg cfg b a)) = trace a @ [EvRegister (Slug b) result]"
  by (auto simp: register_def Let_def split: prod.splits option.splits)

lemma syncAdd_keeps:
  assumes "DAList.lookup (servers a) k = Some h"
  shows "DAList.lookup (servers (syncAdd reg cfg b a)) k = Some h"
proof (cases "DAList.lookup (servers a) (Slug b) \<noteq> None")
  case True
  with assms show ?thesis by (simp add: syncAdd_def)
next
  case False
  with assms have "k \<noteq> Slug b" by auto
  with assms have "DAList.lookup (servers (snd (register reg cfg b a))) k = Some h"
    by (rule register_keeps)
  with False show ?thesis by (simp add: syncAdd_def)
qed

lemma syncAdd_servers:
  assumes "DAList.lookup (servers (syncAdd reg cfg b a)) k = Some h"
  shows "k = Slug b \<or> DAList.lookup (servers a) k = Some h"
proof (cases "DAList.lookup (servers a) (Slug b) \<noteq> None")
  case True
  with assms show ?thesis by (simp add: syncAdd_def)
next
  case False
  with assms have "DAList.lookup (servers (snd (register reg cfg b a))) k = Some h"
    by (simp add: syncAdd_def)
  then show ?thesis by (rule register_servers)
qed

lemma syncAdd_trace:
  "\<exists>evs. trace (syncAdd reg cfg b a) = trace a @ evs
     \<and> (\<forall>e\<in>set evs. \<exists>result. e = EvRegister (Slug b) result
            \<and> DAList.lookup (servers a) (Slug b) = None)"
proof (cases "DAList.lookup (servers a) (Slug b) \<noteq> None")
  case True
  then have "trace (syncAdd reg cfg b a) = trace a @ []" by (simp add: syncAdd_def)
  then show ?thesis by fastforce
next
  case False
  then obtain result where
    "trace (syncAdd reg cfg b a) = trace a @ [EvRegister (Slug b) result]"
    using register_trace [of reg cfg b a] by (auto simp: syncAdd_def)
  with False show ?thesis by fastforce
qed

lemma fold_syncAdd_keeps:
  "DAList.lookup (servers a) k = Some h \<Longrightarrow>
     DAList.lookup (servers (fold (syncAdd reg cfg) bs a)) k = Some h"
  by (induction bs arbitrary: a) (simp_all add: syncAdd_keeps)

lemma fold_syncAdd_servers:
  "DAList.lookup (servers (fold (syncAdd reg cfg) bs a)) k = Some h \<Longrightarrow>
     k \<in> Slug ` set bs \<or> DAList.lookup (servers a) k = Some h"
proof (induction bs arbitrary: a)
  case Nil
  then show ?case by simp
next
  case (Cons b bs)
  from Cons.prems have
    "DAList.lookup (servers (fold (syncAdd reg cfg) bs (syncAdd reg cfg b a))) k = Some h"
    by simp
  from Cons.IH [OF this] show ?case
    using syncAdd_servers [of reg cfg b a k h] by auto
qed

lemma fold_syncAdd_id:
  "\<forall>b\<in>set bs. DAList.lookup (servers a) (Slug b) \<noteq> None \<Longrightarrow>
     fold (syncAdd reg cfg) bs a = a"
  by (induction bs) (simp_all add: syncAdd_def)

lemma fold_syncAdd_trace:
  "\<exists>evs. trace (fold (syncAdd reg cfg) bs a) = trace a @ evs
     \<and> (\<forall>e\<in>set evs. \<exists>slug result. e = EvRegister slug result
            \<and> DAList.lookup (servers a) slug = None)"
proof (induction bs arbitrary: a)
  case Nil
  have "trace (fold (syncAdd reg cfg) [] a) = trace a @ []" by simp
  then show ?case by fastforce
next
  case (Cons b bs)
  let ?a = "syncAdd reg cfg b a"
  obtain ev1 where 1: "trace ?a = trace a @ ev1"
    and e1: "\<forall>e\<in>set ev1. \<exists>result. e = EvRegister (Slug b) result
            \<and> DAList.lookup (servers a) (Slug b) = None"
    using syncAdd_trace [of reg cfg b a] by blast
  obtain ev2 where 2: "trace (fold (syncAdd reg cfg) bs ?a) = trace ?a @ ev2"
    and e2: "\<forall>e\<in>set ev2. \<exists>slug result. e = EvRegister slug result
            \<and> DAList.lookup (servers ?a) slug = None"
    using Cons.IH [of ?a] by blast
  have "\<forall>e\<in>set ev2. \<exists>slug result. e = EvRegister slug result
            \<and> DAList.lookup (servers a) slug = None"
  proof
    fix e assume "e \<in> set ev2"
    with e2 obtain slug result where e: "e = EvRegister slug result"
      and n: "DAList.lookup (servers ?a) slug = None" by blast
    have "DAList.lookup (servers a) slug = None"
    proof (rule ccontr)
      assume "DAList.lookup (servers a) slug \<noteq> None"
      then obtain h where "DAList.lookup (servers a) slug = Some h" by blast
      then have "DAList.lookup (servers ?a) slug = Some h" by (rule syncAdd_keeps)
      with n show False by simp
    qed
    with e show "\<exists>slug result. e = EvRegister slug result
            \<and> DAList.lookup (servers a) slug = None" by blast
  qed
  with e1 have "\<forall>e\<in>set (ev1 @ ev2). \<exists>slug result. e = EvRegister slug result
            \<and> DAList.lookup (servers a) slug = None" by auto
  moreover from 1 2 have "trace (fold (syncAdd reg cfg) (b # bs) a) = trace a @ (ev1 @ ev2)"
    by simp
  ultimately show ?case by blast
qed

lemma Sync_servers_current:
  assumes "DAList.lookup (servers (Sync reg shut cfg bs a)) k = Some h"
  shows "k \<in> Slug ` set bs"
proof -
  let ?m = "fold (syncRemove shut (map Slug bs)) (DAList.impl_of (servers a)) a"
  from assms have "DAList.lookup (servers (fold (syncAdd reg cfg) bs ?m)) k = Some h"
    by (simp add: Sync_def Let_def)
  then have "k \<in> Slug ` set bs \<or> DAList.lookup (servers ?m) k = Some h"
    by (rule fold_syncAdd_servers)
  then show ?thesis
  proof
    assume "k \<in> Slug ` set bs" then show ?thesis .
  next
    assume m: "DAList.lookup (servers ?m) k = Some h"
    show ?thesis
    proof (rule ccontr)
      assume n: "k \<notin> Slug ` set bs"
      from m have s: "DAList.lookup (servers a) k = Some h"
        by (simp add: fold_syncRemove_lookup split: if_splits)
      then have "(k, h) \<in> set (DAList.impl_of (servers a))" by (simp add: in_impl_of_iff)
      then have "k \<in> fst ` set (DAList.impl_of (servers a))" by force
      with n have "DAList.lookup (servers ?m) k = None"
        by (simp add: fold_syncRemove_lookup)
      with m show False by simp
    qed
  qed
qed

lemma Sync_again:
  "Sync reg shut cfg bs (Sync reg shut cfg bs a) =
     fold (syncAdd reg cfg) bs (Sync reg shut cfg bs a)"
proof -
  let ?a = "Sync reg shut cfg bs a"
  have "fst ` set (DAList.impl_of (servers ?a)) \<subseteq> set (map Slug bs)"
  proof
    fix k assume "k \<in> fst ` set (DAList.impl_of (servers ?a))"
    then obtain h where "(k, h) \<in> set (DAList.impl_of (servers ?a))" by force
    then have "DAList.lookup (servers ?a) k = Some h" by (simp add: in_impl_of_iff)
    then have "k \<in> Slug ` set bs" by (rule Sync_servers_current)
    then show "k \<in> set (map Slug bs)" by simp
  qed
  then have "fold (syncRemove shut (map Slug bs)) (DAList.impl_of (servers ?a)) ?a = ?a"
    by (rule fold_syncRemove_id)
  then show ?thesis by (simp add: Sync_def [of reg shut cfg bs ?a] Let_def)
qed

text \<open>
  C9, as amended. When \<^verbatim>\<open>Sync\<close> is called twice in a row with the same snapshot, the second
  call keeps every handle that is live after the first, shuts nothing down, and calls
  \<^verbatim>\<open>RegisterProxy\<close> only for slugs that have no live handle after the first call (those whose
  registration failed). If every slug of the snapshot has a live handle after the first call,
  the second call changes nothing: the same map of handles, no call to the library.
\<close>

theorem Sync_twice:
  "(\<forall>k h. DAList.lookup (servers (Sync reg shut cfg bs a)) k = Some h
      \<longrightarrow> DAList.lookup (servers (Sync reg shut cfg bs (Sync reg shut cfg bs a))) k = Some h)
   \<and> (\<exists>evs. trace (Sync reg shut cfg bs (Sync reg shut cfg bs a))
              = trace (Sync reg shut cfg bs a) @ evs
         \<and> (\<forall>e\<in>set evs. \<exists>slug result. e = EvRegister slug result
               \<and> DAList.lookup (servers (Sync reg shut cfg bs a)) slug = None))
   \<and> ((\<forall>b\<in>set bs. DAList.lookup (servers (Sync reg shut cfg bs a)) (Slug b) \<noteq> None)
      \<longrightarrow> Sync reg shut cfg bs (Sync reg shut cfg bs a) = Sync reg shut cfg bs a)"
  unfolding Sync_again [of reg shut cfg bs a]
  using fold_syncAdd_keeps [of "Sync reg shut cfg bs a" _ _ reg cfg bs]
    fold_syncAdd_trace [of reg cfg bs "Sync reg shut cfg bs a"]
    fold_syncAdd_id [of bs "Sync reg shut cfg bs a" reg cfg]
  by blast

lemma Sync_steady:
  "Sync steadyRegister keepNetwork exampleConfig [projBackend] freshAdvertiser =
     \<lparr>servers = DAList.update (str ''proj'') 0 DAList.empty, network = 1,
      trace = [EvRegister (str ''proj'') (Some 0)]\<rparr>"
  by (simp add: Sync_def syncAdd_def register_def steadyRegister_def freshAdvertiser_def
      projBackend_def DAList.empty.rep_eq Let_def)

theorem Sync_twice_witness:
  "Sync steadyRegister keepNetwork exampleConfig [projBackend]
     (Sync steadyRegister keepNetwork exampleConfig [projBackend] freshAdvertiser)
   = Sync steadyRegister keepNetwork exampleConfig [projBackend] freshAdvertiser"
proof -
  have "\<forall>b\<in>set [projBackend].
          DAList.lookup
            (servers (Sync steadyRegister keepNetwork exampleConfig [projBackend] freshAdvertiser))
            (Slug b) \<noteq> None"
    unfolding Sync_steady by (simp add: projBackend_def)
  with Sync_twice [of steadyRegister keepNetwork exampleConfig "[projBackend]" freshAdvertiser]
  show ?thesis by blast
qed

lemma Sync_flaky:
  "Sync flakyRegister keepNetwork exampleConfig [projBackend] freshAdvertiser =
     \<lparr>servers = DAList.empty, network = 1, trace = [EvRegister (str ''proj'') None]\<rparr>"
  by (simp add: Sync_def syncAdd_def register_def flakyRegister_def freshAdvertiser_def
      projBackend_def DAList.empty.rep_eq Let_def)

text \<open>
  C9, as stated, holds for every snapshot. When the registration of \<^verbatim>\<open>proj\<close> fails in the
  first call and succeeds in the second, the map of live handles is empty after the first call
  and holds a handle for \<^verbatim>\<open>proj\<close> after the second.
\<close>

theorem Sync_retries_failed_registration:
  "DAList.lookup
     (servers (Sync flakyRegister keepNetwork exampleConfig [projBackend] freshAdvertiser))
     (str ''proj'') = None
   \<and> DAList.lookup
     (servers (Sync flakyRegister keepNetwork exampleConfig [projBackend]
        (Sync flakyRegister keepNetwork exampleConfig [projBackend] freshAdvertiser)))
     (str ''proj'') = Some 1"
  unfolding Sync_flaky
  by (simp add: Sync_def syncAdd_def register_def flakyRegister_def projBackend_def
      DAList.empty.rep_eq Let_def)

section \<open>I1 and I4 in every reachable state\<close>

text \<open>
  Of the four invariants, I1 and I4 are kept by \<^verbatim>\<open>Upsert\<close> and by \<^verbatim>\<open>Prune\<close>, and so hold
  after every sequence of calls on an empty registry.
\<close>

lemma Upsert_I4: "I4 r \<Longrightarrow> I4 (snd (Upsert lo port name path version now r))"
  unfolding I4_def Upsert_def Let_def insertBackend_def
  by (auto simp: lookup_update_if split: option.splits if_splits)

lemma Upsert_I1: "I1 r \<Longrightarrow> I1 (snd (Upsert lo port name path version now r))"
  unfolding I1_def Upsert_def Let_def insertBackend_def
  apply (auto simp: lookup_update_if split: option.splits if_splits)
  apply (metis option.inject)+
  done

lemma Prune_byPort_lookup:
  "DAList.lookup (byPort (snd (Prune now r))) p =
     (if \<exists>s b. DAList.lookup (backends r) s = Some b \<and> stale now (staleAfter r) b \<and> Port b = p
      then None else DAList.lookup (byPort r) p)"
proof -
  obtain bs' bp' rm' where
    f: "fold (pruneStep now (staleAfter r)) (DAList.impl_of (backends r))
          (backends r, byPort r, []) = (bs', bp', rm')"
    using prod_cases3 by blast
  then have p: "Prune now r = (rm', r\<lparr>backends := bs', byPort := bp'\<rparr>)"
    by (simp add: Prune_def)
  from fold_pruneStep [OF f] show ?thesis
    by (simp add: p in_impl_of_iff)
qed

lemma Prune_I4: "I4 r \<Longrightarrow> I4 (snd (Prune now r))"
  unfolding I4_def by (auto simp: Prune_backends_lookup split: option.splits if_splits)

lemma Prune_I1: "I1 r \<Longrightarrow> I1 (snd (Prune now r))"
  unfolding I1_def
  apply (auto simp: Prune_backends_lookup Prune_byPort_lookup split: option.splits if_splits)
  apply (metis option.inject)+
  done

lemma run_I1_I4: "I1 (run lo calls (New sa)) \<and> I4 (run lo calls (New sa))"
proof (induction calls rule: rev_induct)
  case Nil
  show ?case by (simp add: run_def New_def I1_def I4_def)
next
  case (snoc c calls)
  then show ?case
    by (cases c) (simp_all add: run_def Upsert_I1 Upsert_I4 Prune_I1 Prune_I4)
qed

end
